theory Spec2Isabelle
  imports Complex_Main "HOL-Library.AList"
begin

section \<open>JSON values and the JavaScript operations applied to them\<close>

text \<open>
  A task in the queue is whatever \<^verbatim>\<open>JSON.parse\<close> returned for its file, so the model
  works on JSON values. Numbers are rationals (every JSON literal is one; the rounding
  of doubles is not modelled). \<open>None\<close> of type \<open>json option\<close> is JavaScript's
  \<^verbatim>\<open>undefined\<close>. An object is an association list in key order; the first binding
  of a key is the effective one. A string is the list of the bytes of its UTF-8 form.
\<close>

datatype json =
    JNull
  | JBool bool
  | JNum rat
  | JStr string
  | JArr "json list"
  | JObj "(string \<times> json) list"

type_synonym jsval = "json option"

datatype errno = EEXIST | ENOENT | EPERM | EBUSY

datatype exn =
    TypeError
  | ZodError
  | InvalidInput
  | FsError errno

text \<open>Truthiness, as used by \<^verbatim>\<open>if (x)\<close>, \<^verbatim>\<open>!x\<close>, \<^verbatim>\<open>a && b\<close>, \<^verbatim>\<open>a || b\<close> and \<^verbatim>\<open>filter(Boolean)\<close>.\<close>

fun truthy :: "jsval \<Rightarrow> bool" where
  "truthy None = False"
| "truthy (Some JNull) = False"
| "truthy (Some (JBool b)) = b"
| "truthy (Some (JNum n)) = (n \<noteq> 0)"
| "truthy (Some (JStr s)) = (s \<noteq> [])"
| "truthy (Some (JArr xs)) = True"
| "truthy (Some (JObj kvs)) = True"

text \<open>
  Reading a property \<^verbatim>\<open>o.k\<close>: a TypeError on \<^verbatim>\<open>undefined\<close> and \<^verbatim>\<open>null\<close>, the
  bound value on an object, \<^verbatim>\<open>undefined\<close> on every other value (the sources read no
  built-in property of a string, number or array through this path).
\<close>

fun js_get :: "jsval \<Rightarrow> string \<Rightarrow> exn + jsval" where
  "js_get None k = Inl TypeError"
| "js_get (Some JNull) k = Inl TypeError"
| "js_get (Some (JObj kvs)) k = Inr (map_of kvs k)"
| "js_get (Some v) k = Inr None"

text \<open>
  Assigning a property \<^verbatim>\<open>o.k = v\<close> (sloppy mode): a TypeError on \<^verbatim>\<open>undefined\<close> and
  \<^verbatim>\<open>null\<close>, an update on an object, silently nothing on a primitive. An array keeps
  its elements; the extra named property is not part of its JSON form.
\<close>

fun js_set :: "jsval \<Rightarrow> string \<Rightarrow> json \<Rightarrow> exn + jsval" where
  "js_set None k v = Inl TypeError"
| "js_set (Some JNull) k v = Inl TypeError"
| "js_set (Some (JObj kvs)) k v = Inr (Some (JObj (AList.update k v kvs)))"
| "js_set (Some x) k v = Inr (Some x)"

text \<open>Decimal rendering of a natural number, as in a template string.\<close>

definition digit :: "nat \<Rightarrow> char" where
  "digit d = ''0123456789'' ! d"

fun dec :: "nat \<Rightarrow> string" where
  "dec n = (if n < 10 then [digit n] else dec (n div 10) @ [digit (n mod 10)])"

declare dec.simps [simp del]

section \<open>The JavaScript built-ins that are parameters of the model\<close>

text \<open>
  The built-ins whose results depend on date, number, locale and Unicode tables are
  parameters: \<^verbatim>\<open>Date.parse\<close> with the string conversion of its argument
  (\<open>None\<close> is NaN), \<^verbatim>\<open>Date.prototype.toISOString\<close>, zod's \<^verbatim>\<open>datetime()\<close> and
  \<^verbatim>\<open>url()\<close> string checks, \<^verbatim>\<open>localeCompare\<close>, the conversions of a string,
  array or object to a number (\<open>None\<close> is NaN; the infinities are not modelled) and of
  any value to a string, and \<^verbatim>\<open>String.prototype.toLowerCase\<close>.
\<close>

record builtins =
  Date_parse :: "jsval \<Rightarrow> int option"
  toISOString :: "int \<Rightarrow> string"
  is_datetime :: "string \<Rightarrow> bool"
  is_url :: "string \<Rightarrow> bool"
  localeCompare :: "string \<Rightarrow> string \<Rightarrow> int"
  ToNumber :: "json \<Rightarrow> rat option"
  ToString :: "jsval \<Rightarrow> string"
  toLowerCase :: "string \<Rightarrow> string"

text \<open>
  Number conversion: a number is itself, the booleans are 1 and 0, \<^verbatim>\<open>null\<close> is 0,
  \<^verbatim>\<open>undefined\<close> is NaN, everything else goes through the built-in conversion.
\<close>

definition toNumber :: "builtins \<Rightarrow> jsval \<Rightarrow> rat option" where
  "toNumber B v =
     (case v of
        None \<Rightarrow> None
      | Some (JNum n) \<Rightarrow> Some n
      | Some (JBool b) \<Rightarrow> Some (if b then 1 else 0)
      | Some JNull \<Rightarrow> Some 0
      | Some x \<Rightarrow> ToNumber B x)"

section \<open>The file system, the process table and the module state of io.js\<close>

text \<open>
  Paths are the three directories io.js uses: the project root, the queue directory
  \<^verbatim>\<open>fila/\<close> and its quarantine subdirectory \<^verbatim>\<open>fila/corrupted/\<close>, each with a file name.
  A file's content is classified by what \<^verbatim>\<open>safeReadJSON\<close> can see of it: blank after
  \<^verbatim>\<open>trim()\<close>, text on which \<^verbatim>\<open>JSON.parse\<close> raises a SyntaxError, or a document.
\<close>

datatype path = Root string | Queue string | Corrupt string

datatype content = Blank | Malformed | Doc json

text \<open>
  \<open>disk\<close> is the directory listing with contents. \<open>held\<close> counts, per file, how many
  further accesses another process's file lock will refuse (the transient EBUSY/EPERM of
  Windows that atomicWrite and safeReadJSON retry on). \<open>alive\<close> is the process table.
  \<open>journal\<close> is a ghost field: every primitive that changes the disk appends each disk
  state it passes through, so the journal lists the states a crash can leave behind.
  The remaining fields are the variables of the module io.js and of the process.
\<close>

record world =
  disk :: "(path \<times> content) list"
  held :: "(path \<times> nat) list"
  alive :: "int list"
  clock :: int
  pid :: int
  rand :: "string list"
  journal :: "(path \<times> content) list list"
  globalQueueCache :: "json list option"
  isCacheDirty :: bool
  lastFullScan :: int

definition basename :: "path \<Rightarrow> string" where
  "basename p = (case p of Root f \<Rightarrow> f | Queue f \<Rightarrow> f | Corrupt f \<Rightarrow> f)"

definition heldOn :: "world \<Rightarrow> path \<Rightarrow> nat" where
  "heldOn w p = (case map_of (held w) p of None \<Rightarrow> 0 | Some n \<Rightarrow> n)"

definition refuse :: "path \<Rightarrow> world \<Rightarrow> world" where
  "refuse p w = w\<lparr>held := AList.update p (heldOn w p - 1) (held w)\<rparr>"

definition commit :: "(path \<times> content) list \<Rightarrow> world \<Rightarrow> world" where
  "commit d w = w\<lparr>disk := d, journal := journal w @ [d]\<rparr>"

definition sleep :: "int \<Rightarrow> world \<Rightarrow> world" where
  "sleep ms w = w\<lparr>clock := clock w + ms\<rparr>"

definition existsSync :: "path \<Rightarrow> world \<Rightarrow> bool" where
  "existsSync p w = (map_of (disk w) p \<noteq> None)"

definition readFileSync :: "path \<Rightarrow> world \<Rightarrow> (exn + content) \<times> world" where
  "readFileSync p w =
     (case map_of (disk w) p of
        None \<Rightarrow> (Inl (FsError ENOENT), w)
      | Some c \<Rightarrow> if 0 < heldOn w p then (Inl (FsError EBUSY), refuse p w) else (Inr c, w))"

text \<open>
  \<^verbatim>\<open>writeFileSync\<close> truncates or creates the file and then writes: a crash in between
  leaves the file blank or cut short.
\<close>

definition writeFileSync :: "path \<Rightarrow> content \<Rightarrow> world \<Rightarrow> world" where
  "writeFileSync p c w =
     commit (AList.update p c (disk w))
       (commit (AList.update p Malformed (disk w))
         (commit (AList.update p Blank (disk w)) w))"

text \<open>
  Flag \<^verbatim>\<open>wx\<close>: the creation fails with EEXIST when the path exists. A file name with
  a \<^verbatim>\<open>/\<close> in it lies in a subdirectory, and none of the three directories has one that
  io.js creates, so the creation fails with ENOENT (a \<^verbatim>\<open>..\<close> segment that
  \<^verbatim>\<open>path.join\<close> would cancel is not modelled).
\<close>

definition writeFileSync_wx :: "path \<Rightarrow> content \<Rightarrow> world \<Rightarrow> (exn + unit) \<times> world" where
  "writeFileSync_wx p c w =
     (if existsSync p w then (Inl (FsError EEXIST), w)
      else if CHR ''/'' \<in> set (basename p) then (Inl (FsError ENOENT), w)
      else (Inr (), writeFileSync p c w))"

text \<open>
  \<^verbatim>\<open>renameSync\<close> replaces the destination in one step. It is refused with EPERM while
  the source, or an existing destination, is held by another process.
\<close>

definition renameSync :: "path \<Rightarrow> path \<Rightarrow> world \<Rightarrow> (exn + unit) \<times> world" where
  "renameSync src dst w =
     (case map_of (disk w) src of
        None \<Rightarrow> (Inl (FsError ENOENT), w)
      | Some c \<Rightarrow>
          if 0 < heldOn w src then (Inl (FsError EPERM), refuse src w)
          else if existsSync dst w \<and> 0 < heldOn w dst then (Inl (FsError EPERM), refuse dst w)
          else (Inr (), commit (AList.update dst c (AList.delete src (disk w))) w))"

text \<open>
  \<^verbatim>\<open>unlinkSync\<close> removes the file. Like the rename it is refused with EPERM while the
  file is held by another process.
\<close>

definition unlinkSync :: "path \<Rightarrow> world \<Rightarrow> (exn + unit) \<times> world" where
  "unlinkSync p w =
     (case map_of (disk w) p of
        None \<Rightarrow> (Inl (FsError ENOENT), w)
      | Some c \<Rightarrow>
          if 0 < heldOn w p then (Inl (FsError EPERM), refuse p w)
          else (Inr (), commit (AList.delete p (disk w)) w))"

definition endsWith :: "string \<Rightarrow> string \<Rightarrow> bool" where
  "endsWith suffix s = (length suffix \<le> length s \<and> drop (length s - length suffix) s = suffix)"

definition readdirSync_queue :: "world \<Rightarrow> string list" where
  "readdirSync_queue w =
     remdups (List.map_filter (\<lambda>(p, c). case p of Queue f \<Rightarrow> Some f | _ \<Rightarrow> None) (disk w))"

section \<open>io.js: low-level helpers\<close>

text \<open>
  \<^verbatim>\<open>isProcessAlive(pid)\<close>: false on a falsy pid. \<^verbatim>\<open>process.kill(pid, 0)\<close> raises
  when \<^verbatim>\<open>pid != (pid | 0)\<close>, a loose comparison: it lets through every value whose
  number conversion is an integer of 32 bits (a number, but also a numeric string or
  \<^verbatim>\<open>true\<close>) and probes the process of that number. \<open>alive\<close> lists the numbers on
  which the probe returns; on every other one it raises. Every error is caught.
\<close>

definition isProcessAlive :: "builtins \<Rightarrow> jsval \<Rightarrow> world \<Rightarrow> bool" where
  "isProcessAlive B p w =
     (if \<not> truthy p then False
      else case toNumber B p of
             None \<Rightarrow> False
           | Some n \<Rightarrow>
               of_int \<lfloor>n\<rfloor> = n \<and> - (2 ^ 31) \<le> n \<and> n < 2 ^ 31 \<and> \<lfloor>n\<rfloor> \<in> set (alive w))"

text \<open>
  \<^verbatim>\<open>atomicWrite(filepath, content)\<close>. The temporary sibling is named after the target,
  the process id and eight random hex digits. The rename is tried while
  \<^verbatim>\<open>attempts < 10\<close>; EPERM and EBUSY count an attempt and sleep \<^verbatim>\<open>100 * attempts\<close> ms,
  any other error is rethrown. \<open>rename_loop\<close> returns \<open>Inr True\<close> for the \<^verbatim>\<open>return\<close>
  inside the loop and \<open>Inr False\<close> when the loop condition ends the loop; after the loop
  the function body ends, so the caller sees a normal return in both cases. The handler
  of the outer \<^verbatim>\<open>try\<close> removes the temporary file and rethrows.
\<close>

definition randomHex :: "world \<Rightarrow> string \<times> world" where
  "randomHex w = (case rand w of [] \<Rightarrow> (''00000000'', w) | u # us \<Rightarrow> (u, w\<lparr>rand := us\<rparr>))"

definition tmpPath :: "path \<Rightarrow> int \<Rightarrow> string \<Rightarrow> path" where
  "tmpPath p i uuid =
     (let suffix = ''.tmp.'' @ dec (nat i) @ ''.'' @ uuid
      in case p of Root f \<Rightarrow> Root (f @ suffix) | Queue f \<Rightarrow> Queue (f @ suffix)
                 | Corrupt f \<Rightarrow> Corrupt (f @ suffix))"

function rename_loop :: "nat \<Rightarrow> path \<Rightarrow> path \<Rightarrow> world \<Rightarrow> (exn + bool) \<times> world" where
  "rename_loop attempts tmp filepath w =
     (if attempts < 10 then
        (case renameSync tmp filepath w of
           (Inr u, w1) \<Rightarrow> (Inr True, w1)
         | (Inl e, w1) \<Rightarrow>
             if e = FsError EPERM \<or> e = FsError EBUSY
             then rename_loop (attempts + 1) tmp filepath (sleep (100 * (int attempts + 1)) w1)
             else (Inl e, w1))
      else (Inr False, w))"
  by pat_completeness auto
termination
  by (relation "measure (\<lambda>(attempts, tmp, filepath, w). 10 - attempts)") auto

declare rename_loop.simps [simp del]

definition atomicWrite :: "path \<Rightarrow> content \<Rightarrow> world \<Rightarrow> (exn + unit) \<times> world" where
  "atomicWrite filepath c w =
     (let (uuid, w1) = randomHex w;
          tmp = tmpPath filepath (pid w) uuid;
          w2 = writeFileSync tmp c w1
      in case rename_loop 0 tmp filepath w2 of
           (Inr renamed, w3) \<Rightarrow> (Inr (), w3)
         | (Inl e, w3) \<Rightarrow>
             (Inl e, if existsSync tmp w3 then snd (unlinkSync tmp w3) else w3))"

text \<open>
  \<^verbatim>\<open>safeReadJSON(filepath)\<close>: null (\<open>None\<close>) for a missing file; up to five reads, a
  busy file sleeping 200 ms between them; a blank or unparsable file is renamed into the
  quarantine directory as \<^verbatim>\<open><basename>.<Date.now()>.bad\<close> (a failure of that rename
  is swallowed) and null is returned; any other error returns null.
\<close>

definition quarantine :: "path \<Rightarrow> world \<Rightarrow> jsval \<times> world" where
  "quarantine filepath w =
     (let badFile = Corrupt (basename filepath @ ''.'' @ dec (nat (clock w)) @ ''.bad'')
      in (None, snd (renameSync filepath badFile w)))"

fun read_loop :: "nat \<Rightarrow> path \<Rightarrow> world \<Rightarrow> jsval \<times> world" where
  "read_loop 0 filepath w = (None, w)"
| "read_loop (Suc k) filepath w =
     (case readFileSync filepath w of
        (Inl e, w1) \<Rightarrow>
          if e = FsError EBUSY \<or> e = FsError EPERM then read_loop k filepath (sleep 200 w1)
          else (None, w1)
      | (Inr Blank, w1) \<Rightarrow> quarantine filepath w1
      | (Inr Malformed, w1) \<Rightarrow> quarantine filepath w1
      | (Inr (Doc j), w1) \<Rightarrow> (Some j, w1))"

definition safeReadJSON :: "path \<Rightarrow> world \<Rightarrow> jsval \<times> world" where
  "safeReadJSON filepath w =
     (if \<not> existsSync filepath w then (None, w) else read_loop 5 filepath w)"

section \<open>io.js: the per-target lock\<close>

text \<open>
  The lock of a target is the file \<^verbatim>\<open>RUNNING_<target.toLowerCase()>.lock\<close> in the
  project root; it records the task, the process id and the time.
\<close>

definition lockFile :: "builtins \<Rightarrow> string \<Rightarrow> path" where
  "lockFile B target = Root (''RUNNING_'' @ toLowerCase B target @ ''.lock'')"

definition lockData :: "builtins \<Rightarrow> string \<Rightarrow> world \<Rightarrow> json" where
  "lockData B taskId w =
     JObj [(''taskId'', JStr taskId), (''pid'', JNum (of_int (pid w))),
           (''ts'', JStr (toISOString B (clock w)))]"

text \<open>
  \<^verbatim>\<open>acquireLock(taskId, target)\<close>: the exclusive create; on its failure the existing
  lock is read, and if it is truthy and its \<^verbatim>\<open>pid\<close> is not alive the file is unlinked
  (errors swallowed) and the function calls itself. \<open>s.pid\<close> on a truthy \<open>s\<close> cannot
  raise.
\<close>

definition recordedPid :: "jsval \<Rightarrow> jsval" where
  "recordedPid s = (case js_get s ''pid'' of Inr v \<Rightarrow> v | Inl x \<Rightarrow> None)"

definition breakLock :: "path \<Rightarrow> world \<Rightarrow> world" where
  "breakLock lf w = (if existsSync lf w then snd (unlinkSync lf w) else w)"

function acquireLock :: "builtins \<Rightarrow> string \<Rightarrow> string \<Rightarrow> world \<Rightarrow> bool \<times> world" where
  "acquireLock B taskId target w =
     (case writeFileSync_wx (lockFile B target) (Doc (lockData B taskId w)) w of
        (Inr u, w1) \<Rightarrow> (True, w1)
      | (Inl e, w1) \<Rightarrow>
          (case safeReadJSON (lockFile B target) w1 of (s, w2) \<Rightarrow>
             if truthy s \<and> \<not> isProcessAlive B (recordedPid s) w2
             then acquireLock B taskId target (breakLock (lockFile B target) w2)
             else (False, w2)))"
  by pat_completeness auto
termination
proof -
  have R: "heldOn w' p = 0 \<and> disk w' = disk w \<and> existsSync p w"
    if "read_loop k p w = (Some j, w')" for k p w j w'
    using that
  proof (induction k arbitrary: w)
    case 0
    then show ?case by simp
  next
    case (Suc k)
    show ?case
    proof (cases "map_of (disk w) p")
      case None
      then show ?thesis using Suc.prems by (simp add: readFileSync_def)
    next
      case (Some c)
      show ?thesis
      proof (cases "0 < heldOn w p")
        case True
        let ?w1 = "sleep 200 (refuse p w)"
        have "read_loop k p ?w1 = (Some j, w')"
          using True Some Suc.prems by (simp add: readFileSync_def)
        from Suc.IH[OF this] show ?thesis
          using Some by (simp add: sleep_def refuse_def existsSync_def)
      next
        case False
        then show ?thesis
          using Some Suc.prems
          by (cases c) (auto simp: readFileSync_def quarantine_def Let_def existsSync_def)
      qed
    qed
  qed
  have S: "existsSync p w \<and> \<not> existsSync p (breakLock p w2)"
    if a: "safeReadJSON p w = (s, w2)" and b: "truthy s" for p w s w2
  proof -
    obtain j where j: "s = Some j" using b by (cases s) auto
    have e: "existsSync p w" using a j by (auto simp: safeReadJSON_def split: if_splits)
    have "read_loop 5 p w = (Some j, w2)"
      using a j e by (simp add: safeReadJSON_def)
    from R[OF this] show ?thesis
      by (auto simp: breakLock_def unlinkSync_def existsSync_def commit_def delete_conv'
               split: option.splits)
  qed
  show ?thesis
    by (relation "measure (\<lambda>(B, taskId, target, w). if existsSync (lockFile B target) w then 1 else 0)")
       (auto simp: writeFileSync_wx_def dest: S[OF sym] split: if_splits)
qed

declare acquireLock.simps [simp del]

text \<open>\<^verbatim>\<open>releaseLock(target)\<close>: the lock file is unlinked if it exists; an error is swallowed.\<close>

definition releaseLock :: "builtins \<Rightarrow> string \<Rightarrow> world \<Rightarrow> world" where
  "releaseLock B target w = breakLock (lockFile B target) w"

text \<open>
  \<^verbatim>\<open>acquireLock\<close> is asynchronous and the other holders of the lock are other
  processes, so between two file-system calls of one attempt another attempt can run.
  \<open>lock_step\<close> is one attempt cut at these calls: the exclusive create, the read of
  the existing lock (up to the \<^verbatim>\<open>await\<close>), and the test with the unlink that leads
  back to the create. \<open>lock_run\<close> lets one attempt take \<open>n\<close> steps on its own.
  \<open>run_schedule\<close> runs several attempts on one target, each of its own process, in
  the order a schedule gives: entry \<open>k\<close> of the schedule lets attempt \<open>k\<close> take its
  next step.
\<close>

datatype lock_pc = Create | Inspect | Decide jsval | Returned bool

definition lock_step :: "builtins \<Rightarrow> string \<Rightarrow> string \<Rightarrow> lock_pc \<Rightarrow> world \<Rightarrow> lock_pc \<times> world" where
  "lock_step B taskId target pc w =
     (case pc of
        Create \<Rightarrow>
          (case writeFileSync_wx (lockFile B target) (Doc (lockData B taskId w)) w of
             (Inr u, w1) \<Rightarrow> (Returned True, w1)
           | (Inl e, w1) \<Rightarrow> (Inspect, w1))
      | Inspect \<Rightarrow> (case safeReadJSON (lockFile B target) w of (s, w2) \<Rightarrow> (Decide s, w2))
      | Decide s \<Rightarrow>
          if truthy s \<and> \<not> isProcessAlive B (recordedPid s) w
          then (Create, breakLock (lockFile B target) w)
          else (Returned False, w)
      | Returned b \<Rightarrow> (Returned b, w))"

fun lock_run :: "nat \<Rightarrow> builtins \<Rightarrow> string \<Rightarrow> string \<Rightarrow> lock_pc \<Rightarrow> world \<Rightarrow> lock_pc \<times> world" where
  "lock_run 0 B taskId target pc w = (pc, w)"
| "lock_run (Suc n) B taskId target pc w =
     (case lock_step B taskId target pc w of (pc', w') \<Rightarrow> lock_run n B taskId target pc' w')"

type_synonym attempt = "int \<times> string \<times> lock_pc"

fun run_schedule :: "builtins \<Rightarrow> string \<Rightarrow> nat list \<Rightarrow> attempt list \<Rightarrow> world \<Rightarrow> attempt list \<times> world" where
  "run_schedule B target [] as w = (as, w)"
| "run_schedule B target (k # ks) as w =
     (if k < length as then
        (case as ! k of (p, taskId, pc) \<Rightarrow>
           (case lock_step B taskId target pc (w\<lparr>pid := p\<rparr>) of (pc', w') \<Rightarrow>
              run_schedule B target ks (as[k := (p, taskId, pc')]) w'))
      else run_schedule B target ks as w)"

section \<open>schemas.js: the zod combinators used by the task schema\<close>

text \<open>
  A schema maps an input (possibly \<^verbatim>\<open>undefined\<close>) to a ZodError or to its output
  (possibly \<^verbatim>\<open>undefined\<close>). An object schema fails when the input is not a plain
  object or when any field fails; unknown keys are stripped unless the schema is
  \<^verbatim>\<open>passthrough()\<close>, in which case they follow the declared keys. A default is put in
  place of \<^verbatim>\<open>undefined\<close> and then parsed by the inner schema.
\<close>

type_synonym schema = "jsval \<Rightarrow> exn + jsval"

definition z_string :: schema where
  "z_string v = (case v of Some (JStr s) \<Rightarrow> Inr v | _ \<Rightarrow> Inl ZodError)"

definition z_number :: schema where
  "z_number v = (case v of Some (JNum n) \<Rightarrow> Inr v | _ \<Rightarrow> Inl ZodError)"

definition z_boolean :: schema where
  "z_boolean v = (case v of Some (JBool b) \<Rightarrow> Inr v | _ \<Rightarrow> Inl ZodError)"

definition z_any :: schema where
  "z_any v = Inr v"

definition z_enum :: "string list \<Rightarrow> schema" where
  "z_enum xs v =
     (case v of Some (JStr s) \<Rightarrow> if s \<in> set xs then Inr v else Inl ZodError
              | _ \<Rightarrow> Inl ZodError)"

definition z_literal :: "json \<Rightarrow> schema" where
  "z_literal l v = (if v = Some l then Inr v else Inl ZodError)"

definition z_refine :: "(json \<Rightarrow> bool) \<Rightarrow> schema \<Rightarrow> schema" where
  "z_refine P s v =
     (case s v of Inr (Some y) \<Rightarrow> if P y then Inr (Some y) else Inl ZodError | r \<Rightarrow> r)"

definition z_transform :: "(json \<Rightarrow> json) \<Rightarrow> schema \<Rightarrow> schema" where
  "z_transform f s v = (case s v of Inr (Some y) \<Rightarrow> Inr (Some (f y)) | r \<Rightarrow> r)"

definition z_default :: "json \<Rightarrow> schema \<Rightarrow> schema" where
  "z_default d s v = s (case v of None \<Rightarrow> Some d | Some x \<Rightarrow> Some x)"

definition z_optional :: "schema \<Rightarrow> schema" where
  "z_optional s v = (case v of None \<Rightarrow> Inr None | Some x \<Rightarrow> s v)"

definition z_nullable :: "schema \<Rightarrow> schema" where
  "z_nullable s v = (case v of Some JNull \<Rightarrow> Inr (Some JNull) | _ \<Rightarrow> s v)"

definition z_or :: "schema \<Rightarrow> schema \<Rightarrow> schema" where
  "z_or a b v = (case a v of Inr y \<Rightarrow> Inr y | Inl e \<Rightarrow> b v)"

definition defined_outputs :: "(string \<times> (exn + jsval)) list \<Rightarrow> (string \<times> json) list" where
  "defined_outputs rs =
     List.map_filter (\<lambda>(k, r). case r of Inr (Some y) \<Rightarrow> Some (k, y) | _ \<Rightarrow> None) rs"

definition z_array :: "schema \<Rightarrow> schema" where
  "z_array s v =
     (case v of
        Some (JArr xs) \<Rightarrow>
          (let rs = map (\<lambda>x. s (Some x)) xs
           in if list_ex isl rs then Inl ZodError
              else Inr (Some (JArr (List.map_filter
                     (\<lambda>r. case r of Inr (Some y) \<Rightarrow> Some y | _ \<Rightarrow> None) rs))))
      | _ \<Rightarrow> Inl ZodError)"

definition z_object :: "(string \<times> schema) list \<Rightarrow> bool \<Rightarrow> schema" where
  "z_object shape passthrough v =
     (case v of
        Some (JObj kvs) \<Rightarrow>
          (let rs = map (\<lambda>(k, s). (k, s (map_of kvs k))) shape
           in if list_ex (\<lambda>(k, r). isl r) rs then Inl ZodError
              else Inr (Some (JObj (defined_outputs rs @
                     (if passthrough then filter (\<lambda>(k, x). k \<notin> set (map fst shape)) kvs
                      else [])))))
      | _ \<Rightarrow> Inl ZodError)"

definition z_record :: "schema \<Rightarrow> schema" where
  "z_record s v =
     (case v of
        Some (JObj kvs) \<Rightarrow>
          (let rs = map (\<lambda>(k, x). (k, s (Some x))) kvs
           in if list_ex (\<lambda>(k, r). isl r) rs then Inl ZodError
              else Inr (Some (JObj (defined_outputs rs))))
      | _ \<Rightarrow> Inl ZodError)"

definition str_pred :: "(string \<Rightarrow> bool) \<Rightarrow> json \<Rightarrow> bool" where
  "str_pred P j = (case j of JStr s \<Rightarrow> P s | _ \<Rightarrow> False)"

definition num_pred :: "(rat \<Rightarrow> bool) \<Rightarrow> json \<Rightarrow> bool" where
  "num_pred P j = (case j of JNum n \<Rightarrow> P n | _ \<Rightarrow> False)"

definition str_map :: "(string \<Rightarrow> string) \<Rightarrow> json \<Rightarrow> json" where
  "str_map f j = (case j of JStr s \<Rightarrow> JStr (f s) | _ \<Rightarrow> j)"

definition num_map :: "(rat \<Rightarrow> rat) \<Rightarrow> json \<Rightarrow> json" where
  "num_map f j = (case j of JNum n \<Rightarrow> JNum (f n) | _ \<Rightarrow> j)"

text \<open>The character class \<^verbatim>\<open>[a-zA-Z0-9._-]\<close> of task ids.\<close>

definition id_char :: "char \<Rightarrow> bool" where
  "id_char c =
     (c \<in> set ''abcdefghijklmnopqrstuvwxyzABCDEFGHIJKLMNOPQRSTUVWXYZ0123456789._-'')"

text \<open>ASCII white space for \<^verbatim>\<open>trim()\<close>, and the control characters the schema removes.\<close>

definition is_space :: "char \<Rightarrow> bool" where
  "is_space c = (c \<in> set [CHR '' '', CHR 0x09, CHR 0x0A, CHR 0x0B, CHR 0x0C, CHR 0x0D])"

definition trim :: "string \<Rightarrow> string" where
  "trim s = rev (dropWhile is_space (rev (dropWhile is_space s)))"

definition is_control :: "char \<Rightarrow> bool" where
  "is_control c =
     (c \<in> set [CHR 0x00, CHR 0x01, CHR 0x02, CHR 0x03, CHR 0x04, CHR 0x05, CHR 0x06, CHR 0x07,
               CHR 0x08, CHR 0x0B, CHR 0x0C, CHR 0x0E, CHR 0x0F, CHR 0x10, CHR 0x11, CHR 0x12,
               CHR 0x13, CHR 0x14, CHR 0x15, CHR 0x16, CHR 0x17, CHR 0x18, CHR 0x19, CHR 0x1A,
               CHR 0x1B, CHR 0x1C, CHR 0x1D, CHR 0x1E, CHR 0x1F, CHR 0x7F])"

definition z_datetime_or_now :: "builtins \<Rightarrow> int \<Rightarrow> schema" where
  "z_datetime_or_now B now =
     z_or (z_refine (str_pred (is_datetime B)) z_string)
          (z_transform (\<lambda>j. JStr (toISOString B now)) z_string)"

section \<open>schemas.js: the task schema and parseTask\<close>

definition MetaSchema :: "builtins \<Rightarrow> int \<Rightarrow> schema" where
  "MetaSchema B now =
     z_object
       [(''id'', z_refine (str_pred (\<lambda>s. 1 \<le> length s))
                  (z_refine (str_pred (\<lambda>s. s \<noteq> [] \<and> list_all id_char s)) z_string)),
        (''project_id'', z_default (JStr ''default'') z_string),
        (''parent_id'', z_optional z_string),
        (''correlation_id'', z_optional z_string),
        (''version'', z_default (JStr ''4.0'') z_string),
        (''created_at'', z_datetime_or_now B now),
        (''priority'', z_transform (num_map (\<lambda>v. max 0 (min 100 v))) (z_default (JNum 5) z_number)),
        (''source'', z_default (JStr ''manual'')
                      (z_enum [''manual'', ''api'', ''orchestrator'', ''bulk'', ''gui'',
                               ''flow_manager'', ''self_generated''])),
        (''tags'', z_default (JArr []) (z_array z_string)),
        (''checksum'', z_optional z_string)]
       False"

definition PayloadSchema :: schema where
  "PayloadSchema =
     z_object
       [(''system_message'', z_default (JStr '''') (z_optional z_string)),
        (''context'', z_default (JStr '''') (z_optional z_string)),
        (''user_message'',
           z_transform (str_map (filter (\<lambda>c. \<not> is_control c)))
             (z_transform (str_map trim)
               (z_refine (str_pred (\<lambda>s. 1 \<le> length s)) z_string)))]
       False"

definition SpecSchema :: schema where
  "SpecSchema =
     z_object
       [(''target'', z_default (JStr ''chatgpt'') z_string),
        (''model'', z_default (JStr ''gpt-5'') z_string),
        (''payload'', PayloadSchema),
        (''parameters'',
           z_default (JObj [])
             (z_object
                [(''temperature'',
                    z_default (JNum (7 / 10))
                      (z_refine (num_pred (\<lambda>n. n \<le> 2)) (z_refine (num_pred (\<lambda>n. 0 \<le> n)) z_number))),
                 (''max_tokens'', z_optional z_number),
                 (''top_p'', z_optional z_number),
                 (''stop_sequences'', z_default (JArr []) (z_array z_string))]
                False)),
        (''validation'',
           z_default (JObj [])
             (z_object
                [(''min_length'', z_default (JNum 10) z_number),
                 (''required_format'',
                    z_default (JStr ''text'') (z_enum [''text'', ''json'', ''markdown'', ''code''])),
                 (''forbidden_terms'',
                    z_default (JArr [JStr ''I cannot'', JStr ''As an AI'', JStr ''desculpe'',
                                     JStr (''viola'' @ [CHR 0xC3, CHR 0xA7, CHR 0xC3, CHR 0xA3] @ ''o'')])
                      (z_array z_string))]
                False)),
        (''config'',
           z_default (JObj [])
             (z_object
                [(''reset_context'', z_default (JBool False) z_boolean),
                 (''require_history'', z_default (JBool True) z_boolean),
                 (''output_format'',
                    z_default (JStr ''markdown'') (z_enum [''markdown'', ''json'', ''raw''])),
                 (''session_id'', z_optional z_string)]
                False))]
       True"

definition PolicySchema :: "builtins \<Rightarrow> schema" where
  "PolicySchema B =
     z_object
       [(''max_attempts'', z_default (JNum 5) (z_refine (num_pred (\<lambda>n. 1 \<le> n)) z_number)),
        (''timeout_ms'', z_default (JStr ''auto'') (z_or z_number (z_literal (JStr ''auto'')))),
        (''dependencies'', z_default (JArr []) (z_array z_string)),
        (''execute_after'', z_optional (z_nullable (z_refine (str_pred (is_datetime B)) z_string))),
        (''priority_weight'', z_default (JNum 1) z_number)]
       False"

definition HistoryEntrySchema :: "builtins \<Rightarrow> int \<Rightarrow> schema" where
  "HistoryEntrySchema B now =
     z_object
       [(''ts'', z_datetime_or_now B now),
        (''event'', z_string),
        (''msg'', z_optional z_string),
        (''worker'', z_optional z_string)]
       False"

definition StateSchema :: "builtins \<Rightarrow> int \<Rightarrow> schema" where
  "StateSchema B now =
     z_object
       [(''status'',
           z_default (JStr ''PENDING'')
             (z_enum [''PENDING'', ''RUNNING'', ''DONE'', ''FAILED'', ''PAUSED'', ''SKIPPED'',
                      ''STALLED''])),
        (''progress_estimate'',
           z_default (JNum 0)
             (z_refine (num_pred (\<lambda>n. n \<le> 100)) (z_refine (num_pred (\<lambda>n. 0 \<le> n)) z_number))),
        (''worker_id'', z_default JNull (z_nullable z_string)),
        (''attempts'', z_default (JNum 0) z_number),
        (''started_at'', z_default JNull (z_nullable z_string)),
        (''completed_at'', z_default JNull (z_nullable z_string)),
        (''last_error'', z_default JNull (z_nullable z_string)),
        (''metrics'',
           z_default (JObj [])
             (z_object
                [(''duration_ms'', z_default (JNum 0) z_number),
                 (''token_estimate'', z_default (JNum 0) z_number),
                 (''heartbeat_latency_ms'', z_default (JNum 0) z_number),
                 (''event_loop_lag_ms'', z_default (JNum 0) z_number)]
                False)),
        (''history'', z_default (JArr []) (z_array (HistoryEntrySchema B now)))]
       False"

definition ResultSchema :: "builtins \<Rightarrow> schema" where
  "ResultSchema B =
     z_default (JObj [])
       (z_object
          [(''file_path'', z_default JNull (z_nullable z_string)),
           (''session_url'', z_default JNull (z_nullable (z_refine (str_pred (is_url B)) z_string))),
           (''finish_reason'',
              z_default (JStr ''unknown'')
                (z_enum [''stop'', ''length'', ''content_filter'', ''error'', ''manual'', ''unknown''])),
           (''raw_output_preview'', z_optional z_string)]
          False)"

definition TaskSchema :: "builtins \<Rightarrow> int \<Rightarrow> schema" where
  "TaskSchema B now =
     z_object
       [(''meta'', MetaSchema B now),
        (''spec'', SpecSchema),
        (''policy'', PolicySchema B),
        (''state'', StateSchema B now),
        (''result'', ResultSchema B)]
       True"

text \<open>
  The legacy adapter of \<^verbatim>\<open>parseTask\<close>. \<open>field\<close> reads a property where the source has
  guarded the read by truthiness (or by optional chaining), so that it cannot raise.
  \<open>spread\<close> is the object spread \<^verbatim>\<open>{...x}\<close>: the own enumerable properties of an object,
  the indexed elements of an array or string, nothing for any other value.
\<close>

definition field :: "jsval \<Rightarrow> string \<Rightarrow> jsval" where
  "field v k = (case js_get v k of Inr x \<Rightarrow> x | Inl e \<Rightarrow> None)"

definition spread :: "jsval \<Rightarrow> (string \<times> json) list" where
  "spread v =
     (case v of
        Some (JObj kvs) \<Rightarrow> kvs
      | Some (JArr xs) \<Rightarrow> map (\<lambda>i. (dec i, xs ! i)) [0..<length xs]
      | Some (JStr s) \<Rightarrow> map (\<lambda>i. (dec i, JStr [s ! i])) [0..<length s]
      | _ \<Rightarrow> [])"

definition or_empty :: "jsval \<Rightarrow> json" where
  "or_empty v = (if truthy v then the v else JObj [])"

definition legacy_adapter :: "(string \<times> json) list \<Rightarrow> exn + (string \<times> json) list" where
  "legacy_adapter n0 =
     (let n1 = (if truthy (map_of n0 ''prompt'') \<and>
                   (\<not> truthy (map_of n0 ''spec'') \<or> \<not> truthy (field (map_of n0 ''spec'') ''payload''))
                then AList.update ''spec''
                       (JObj (AList.update ''payload''
                          (JObj (AList.update ''user_message'' (the (map_of n0 ''prompt''))
                             (spread (field (map_of n0 ''spec'') ''payload''))))
                          (spread (map_of n0 ''spec'')))) n0
                else n0);
          n2 = (if map_of n1 ''prioridade'' \<noteq> None \<and>
                   (\<not> truthy (map_of n1 ''meta'') \<or> field (map_of n1 ''meta'') ''priority'' = None)
                then AList.update ''meta''
                       (JObj (AList.update ''priority'' (the (map_of n1 ''prioridade''))
                          (spread (map_of n1 ''meta'')))) n1
                else n1)
      in if truthy (map_of n2 ''id'') \<and>
            (\<not> truthy (map_of n2 ''meta'') \<or> \<not> truthy (field (map_of n2 ''meta'') ''id'')) \<and>
            (case map_of n2 ''id'' of Some (JStr s) \<Rightarrow> False | _ \<Rightarrow> True)
         then Inl TypeError
         else
           (let n3 = (if truthy (map_of n2 ''id'') \<and>
                         (\<not> truthy (map_of n2 ''meta'') \<or> \<not> truthy (field (map_of n2 ''meta'') ''id''))
                      then AList.update ''meta''
                             (JObj (AList.update ''id''
                                (str_map (map (\<lambda>c. if id_char c then c else CHR ''_''))
                                   (the (map_of n2 ''id'')))
                                (spread (map_of n2 ''meta'')))) n2
                      else n2);
                n4 = (if truthy (map_of n3 ''status'') \<and>
                         (\<not> truthy (map_of n3 ''state'') \<or> \<not> truthy (field (map_of n3 ''state'') ''status''))
                      then AList.update ''state''
                             (JObj (AList.update ''status'' (the (map_of n3 ''status''))
                                (spread (map_of n3 ''state'')))) n3
                      else n3);
                n5 = (if truthy (map_of n4 ''erro'') \<and>
                         (\<not> truthy (map_of n4 ''state'') \<or> \<not> truthy (field (map_of n4 ''state'') ''last_error''))
                      then AList.update ''state''
                             (JObj (AList.update ''last_error'' (the (map_of n4 ''erro''))
                                (spread (map_of n4 ''state'')))) n4
                      else n4);
                n6 = (if truthy (map_of n5 ''dependsOn'') \<and>
                         (\<not> truthy (map_of n5 ''policy'') \<or> \<not> truthy (field (map_of n5 ''policy'') ''dependencies''))
                      then AList.update ''policy''
                             (JObj (AList.update ''dependencies'' (the (map_of n5 ''dependsOn''))
                                (spread (map_of n5 ''policy'')))) n5
                      else n5)
            in Inr n6))"

definition ensure_blocks :: "(string \<times> json) list \<Rightarrow> (string \<times> json) list" where
  "ensure_blocks n =
     foldl (\<lambda>m k. AList.update k (or_empty (map_of m k)) m) n
       [''meta'', ''spec'', ''policy'', ''state'', ''result'']"

text \<open>
  \<^verbatim>\<open>parseTask(raw)\<close>: a falsy or non-object input is rejected; the deep copy through
  JSON is the identity on JSON values; an array passes the first test, is not touched by
  the adapter and is rejected by the object schema.
\<close>

definition parseTask :: "builtins \<Rightarrow> int \<Rightarrow> jsval \<Rightarrow> exn + json" where
  "parseTask B now raw =
     (case raw of
        Some (JObj n0) \<Rightarrow>
          (case legacy_adapter n0 of
             Inl e \<Rightarrow> Inl e
           | Inr n \<Rightarrow>
               (case TaskSchema B now (Some (JObj (ensure_blocks n))) of
                  Inl e \<Rightarrow> Inl e
                | Inr None \<Rightarrow> Inl ZodError
                | Inr (Some t) \<Rightarrow> Inr t))
      | Some (JArr xs) \<Rightarrow> Inl ZodError
      | _ \<Rightarrow> Inl InvalidInput)"

section \<open>io.js: the queue and the scheduler\<close>

definition CACHE_HEARTBEAT_MS :: int where
  "CACHE_HEARTBEAT_MS = 15000"

text \<open>\<^verbatim>\<open>CONFIG.RUNNING_RECOVERY_MS\<close>, the default of config.js (40 minutes).\<close>

definition RUNNING_RECOVERY_MS :: int where
  "RUNNING_RECOVERY_MS = 40 * 60 * 1000"

fun read_all :: "string list \<Rightarrow> world \<Rightarrow> jsval list \<times> world" where
  "read_all [] w = ([], w)"
| "read_all (f # fs) w =
     (case safeReadJSON (Queue f) w of (r, w1) \<Rightarrow>
        (case read_all fs w1 of (rs, w2) \<Rightarrow> (r # rs, w2)))"

text \<open>
  \<^verbatim>\<open>getQueue(forceRefresh)\<close>. The cached array is returned unless a refresh is forced,
  the cache is dirty, the heartbeat interval has passed or there is no cache. A scan
  reads every \<^verbatim>\<open>.json\<close> file of the queue directory and keeps the truthy results.
  No primitive of the model raises inside the scan, so the handler that returns the old
  cache has no counterpart here.
\<close>

definition getQueue :: "bool \<Rightarrow> world \<Rightarrow> json list \<times> world" where
  "getQueue forceRefresh w =
     (let now = clock w;
          needsHeartbeat = (now - lastFullScan w > CACHE_HEARTBEAT_MS)
      in if \<not> forceRefresh \<and> \<not> isCacheDirty w \<and> \<not> needsHeartbeat \<and> globalQueueCache w \<noteq> None
         then (the (globalQueueCache w), w)
         else
           (let files = filter (endsWith ''.json'') (readdirSync_queue w);
                (results, w1) = read_all files w;
                cache = map the (filter truthy results)
            in (cache, w1\<lparr>globalQueueCache := Some cache, isCacheDirty := False,
                           lastFullScan := now\<rparr>)))"

text \<open>
  \<^verbatim>\<open>saveTask(task)\<close>: validation first; the file name comes from the validated id
  (a string, by the schema); the cache is marked dirty after the write returned.
\<close>

definition taskFile :: "json \<Rightarrow> path" where
  "taskFile validated =
     Queue ((case field (field (Some validated) ''meta'') ''id'' of Some (JStr s) \<Rightarrow> s | _ \<Rightarrow> [])
            @ ''.json'')"

definition saveTask :: "builtins \<Rightarrow> json \<Rightarrow> world \<Rightarrow> (exn + unit) \<times> world" where
  "saveTask B task w =
     (case parseTask B (clock w) (Some task) of
        Inl e \<Rightarrow> (Inl e, w)
      | Inr validated \<Rightarrow>
          (case atomicWrite (taskFile validated) (Doc validated) w of
             (Inl e, w1) \<Rightarrow> (Inl e, w1)
           | (Inr u, w1) \<Rightarrow> (Inr (), w1\<lparr>isCacheDirty := True\<rparr>)))"

text \<open>
  The tasks \<^verbatim>\<open>loadNextTask\<close> works on are the objects of the cached array, and it
  changes them in place: \<open>tasks\<close> reads the array, \<open>setTask\<close> stores a changed object at
  its index.
\<close>

definition tasks :: "world \<Rightarrow> json list" where
  "tasks w = (case globalQueueCache w of Some ts \<Rightarrow> ts | None \<Rightarrow> [])"

definition setTask :: "nat \<Rightarrow> json \<Rightarrow> world \<Rightarrow> world" where
  "setTask i t w = w\<lparr>globalQueueCache := Some ((tasks w)[i := t])\<rparr>"

text \<open>Strict equality \<^verbatim>\<open>===\<close> of two values read from parsed JSON: by value on
  primitives, never between two distinct objects or arrays.\<close>

definition strict_eq :: "jsval \<Rightarrow> jsval \<Rightarrow> bool" where
  "strict_eq a b =
     (case (a, b) of
        (None, None) \<Rightarrow> True
      | (Some JNull, Some JNull) \<Rightarrow> True
      | (Some (JBool x), Some (JBool y)) \<Rightarrow> x = y
      | (Some (JNum x), Some (JNum y)) \<Rightarrow> x = y
      | (Some (JStr x), Some (JStr y)) \<Rightarrow> x = y
      | _ \<Rightarrow> False)"

text \<open>
  The instant of \<^verbatim>\<open>new Date(x)\<close>: a number or boolean is the milliseconds (truncated),
  any other value is parsed as \<^verbatim>\<open>Date.parse\<close> does; \<open>None\<close> is an invalid date.
\<close>

definition newDate :: "builtins \<Rightarrow> jsval \<Rightarrow> int option" where
  "newDate B v =
     (case v of
        Some (JNum n) \<Rightarrow> Some (if 0 \<le> n then \<lfloor>n\<rfloor> else \<lceil>n\<rceil>)
      | Some (JBool b) \<Rightarrow> Some (if b then 1 else 0)
      | _ \<Rightarrow> Date_parse B v)"

text \<open>
  Step 1 of \<^verbatim>\<open>loadNextTask\<close> for the task at index \<open>i\<close>: a RUNNING task whose
  \<^verbatim>\<open>started_at\<close> is truthy and older than the threshold gets status FAILED, the
  last error and a history event, in memory, and is then saved; every TypeError of the
  property chain and every error of \<^verbatim>\<open>saveTask\<close> leaves the function.
\<close>

definition recoveryEvent :: "builtins \<Rightarrow> world \<Rightarrow> json" where
  "recoveryEvent B w =
     JObj [(''ts'', JStr (toISOString B (clock w))), (''event'', JStr ''SYSTEM_RECOVERY''),
           (''msg'', JStr ''Ressuscitado por inatividade'')]"

definition sweep_one :: "builtins \<Rightarrow> int \<Rightarrow> nat \<Rightarrow> world \<Rightarrow> (exn + unit) \<times> world" where
  "sweep_one B now i w =
     (let t = tasks w ! i in
      case js_get (Some t) ''state'' of
        Inl e \<Rightarrow> (Inl e, w)
      | Inr st \<Rightarrow>
          (case js_get st ''status'' of
             Inl e \<Rightarrow> (Inl e, w)
           | Inr status \<Rightarrow>
               if strict_eq status (Some (JStr ''RUNNING'')) \<and> truthy (field st ''started_at'')
               then
                 (case Date_parse B (field st ''started_at'') of
                    None \<Rightarrow> (Inr (), w)
                  | Some started \<Rightarrow>
                      if now - started > RUNNING_RECOVERY_MS then
                        (let st1 = AList.update ''last_error'' (JStr (''Timeout de Recupera'' @ [CHR 0xC3, CHR 0xA7, CHR 0xC3, CHR 0xA3]
                                                  @ ''o (Zumbi)''))
                                     (AList.update ''status'' (JStr ''FAILED'') (spread st))
                         in case map_of st1 ''history'' of
                              Some (JArr h) \<Rightarrow>
                                (let t1 = JObj (AList.update ''state''
                                            (JObj (AList.update ''history''
                                               (JArr (h @ [recoveryEvent B w])) st1))
                                            (spread (Some t)))
                                 in saveTask B t1 (setTask i t1 w))
                            | _ \<Rightarrow>
                                (Inl TypeError,
                                 setTask i (JObj (AList.update ''state'' (JObj st1) (spread (Some t)))) w))
                      else (Inr (), w))
               else (Inr (), w)))"

fun sweep :: "builtins \<Rightarrow> int \<Rightarrow> nat list \<Rightarrow> world \<Rightarrow> (exn + unit) \<times> world" where
  "sweep B now [] w = (Inr (), w)"
| "sweep B now (i # is) w =
     (case sweep_one B now i w of
        (Inl e, w1) \<Rightarrow> (Inl e, w1)
      | (Inr u, w1) \<Rightarrow> sweep B now is w1)"

text \<open>
  Step 2, the dependency loop of one task. \<open>find_parent\<close> is
  \<^verbatim>\<open>allTasks.find(x => x.meta.id === depId)\<close>: it stops at the first match and raises
  when it meets a task without \<^verbatim>\<open>meta\<close> before that. \<open>dep_scan\<close> is the \<^verbatim>\<open>for\<close> loop
  with its two flags: a missing parent sets \<open>isBlocked\<close> and breaks, a FAILED or SKIPPED
  parent sets \<open>parentFailed\<close> and breaks, any other status than DONE sets \<open>isBlocked\<close>
  and goes on.
\<close>

fun find_parent :: "json list \<Rightarrow> json \<Rightarrow> exn + json option" where
  "find_parent [] depId = Inr None"
| "find_parent (x # xs) depId =
     (case js_get (Some x) ''meta'' of
        Inl e \<Rightarrow> Inl e
      | Inr m \<Rightarrow>
          (case js_get m ''id'' of
             Inl e \<Rightarrow> Inl e
           | Inr pid' \<Rightarrow> if strict_eq pid' (Some depId) then Inr (Some x) else find_parent xs depId))"

fun dep_scan :: "json list \<Rightarrow> json list \<Rightarrow> bool \<Rightarrow> exn + bool \<times> bool" where
  "dep_scan allTasks [] isBlocked = Inr (isBlocked, False)"
| "dep_scan allTasks (depId # deps) isBlocked =
     (case find_parent allTasks depId of
        Inl e \<Rightarrow> Inl e
      | Inr None \<Rightarrow> Inr (True, False)
      | Inr (Some parent) \<Rightarrow>
          (case js_get (Some parent) ''state'' of
             Inl e \<Rightarrow> Inl e
           | Inr pst \<Rightarrow>
               (case js_get pst ''status'' of
                  Inl e \<Rightarrow> Inl e
                | Inr pStatus \<Rightarrow>
                    if strict_eq pStatus (Some (JStr ''FAILED'')) \<or>
                       strict_eq pStatus (Some (JStr ''SKIPPED''))
                    then Inr (isBlocked, True)
                    else dep_scan allTasks deps
                           (isBlocked \<or> \<not> strict_eq pStatus (Some (JStr ''DONE''))))))"

text \<open>
  What the loop sees of one dependency: no task with that id, a task whose status is
  FAILED or SKIPPED, one whose status is DONE, or one with any other status.
\<close>

datatype dep_state = Missing | Bad | Done | Waiting

definition dep_state_of :: "json list \<Rightarrow> json \<Rightarrow> exn + dep_state" where
  "dep_state_of allTasks depId =
     (case find_parent allTasks depId of
        Inl e \<Rightarrow> Inl e
      | Inr None \<Rightarrow> Inr Missing
      | Inr (Some parent) \<Rightarrow>
          (case js_get (Some parent) ''state'' of
             Inl e \<Rightarrow> Inl e
           | Inr pst \<Rightarrow>
               (case js_get pst ''status'' of
                  Inl e \<Rightarrow> Inl e
                | Inr pStatus \<Rightarrow>
                    Inr (if strict_eq pStatus (Some (JStr ''FAILED'')) \<or>
                            strict_eq pStatus (Some (JStr ''SKIPPED'')) then Bad
                         else if strict_eq pStatus (Some (JStr ''DONE'')) then Done
                         else Waiting))))"

text \<open>
  The elements a \<^verbatim>\<open>for ... of\<close> loop visits when \<^verbatim>\<open>deps.length > 0\<close> holds for
  \<^verbatim>\<open>deps = t.policy.dependencies || []\<close>: the elements of an array, the characters of a
  string; an object whose \<^verbatim>\<open>length\<close> converts to a positive number is not iterable
  (TypeError); anything else has no positive length.
\<close>

definition dep_list :: "builtins \<Rightarrow> jsval \<Rightarrow> exn + json list" where
  "dep_list B d =
     (if \<not> truthy d then Inr []
      else case d of
             Some (JArr xs) \<Rightarrow> Inr xs
           | Some (JStr s) \<Rightarrow> Inr (map (\<lambda>c. JStr [c]) s)
           | Some (JObj kvs) \<Rightarrow>
               (case toNumber B (map_of kvs ''length'') of
                  Some n \<Rightarrow> if n > 0 then Inl TypeError else Inr []
                | None \<Rightarrow> Inr [])
           | _ \<Rightarrow> Inr [])"

text \<open>
  The task after the two assignments of the deadlock breaker, \<^verbatim>\<open>t.state.status = 'SKIPPED'\<close>
  and \<^verbatim>\<open>t.state.last_error = ...\<close>, on a task whose \<^verbatim>\<open>state\<close> is an object.
\<close>

definition skipped :: "json \<Rightarrow> json" where
  "skipped t =
     JObj (AList.update ''state''
        (JObj (AList.update ''last_error''
           (JStr (''Depend'' @ [CHR 0xC3, CHR 0xAA] @ ''ncia falhou ou foi pulada.''))
           (AList.update ''status'' (JStr ''SKIPPED'')
              (spread (field (Some t) ''state'')))))
        (spread (Some t)))"

text \<open>
  The filter callback for the task at index \<open>i\<close>: \<open>Inr True\<close> keeps the task. A task
  whose parent failed is changed in memory and handed to \<^verbatim>\<open>saveTask\<close>, whose promise is
  not awaited: its outcome is dropped. (A save that has to wait for a busy file would
  finish after the filter; the model runs it to its end at once.)
\<close>

definition eligible_one :: "builtins \<Rightarrow> nat \<Rightarrow> world \<Rightarrow> (exn + bool) \<times> world" where
  "eligible_one B i w =
     (let t = tasks w ! i in
      case js_get (Some t) ''state'' of
        Inl e \<Rightarrow> (Inl e, w)
      | Inr st \<Rightarrow>
          (case js_get st ''status'' of
             Inl e \<Rightarrow> (Inl e, w)
           | Inr status \<Rightarrow>
               if \<not> strict_eq status (Some (JStr ''PENDING'')) then (Inr False, w)
               else
                 (case js_get (Some t) ''policy'' of
                    Inl e \<Rightarrow> (Inl e, w)
                  | Inr pol \<Rightarrow>
                      (case js_get pol ''execute_after'' of
                         Inl e \<Rightarrow> (Inl e, w)
                       | Inr ea \<Rightarrow>
                           if truthy ea \<and>
                              (case newDate B ea of Some due \<Rightarrow> due > clock w | None \<Rightarrow> False)
                           then (Inr False, w)
                           else
                             (case dep_list B (field pol ''dependencies'') of
                                Inl e \<Rightarrow> (Inl e, w)
                              | Inr deps \<Rightarrow>
                                  if deps = [] then (Inr True, w)
                                  else
                                    (case dep_scan (tasks w) deps False of
                                       Inl e \<Rightarrow> (Inl e, w)
                                     | Inr (isBlocked, parentFailed) \<Rightarrow>
                                         if parentFailed then
                                           (let t1 = JObj (AList.update ''state''
                                                       (JObj (AList.update ''last_error''
                                                          (JStr (''Depend'' @ [CHR 0xC3, CHR 0xAA]
                                                                @ ''ncia falhou ou foi pulada.''))
                                                          (AList.update ''status'' (JStr ''SKIPPED'')
                                                             (spread st))))
                                                       (spread (Some t)))
                                            in (Inr False, snd (saveTask B t1 (setTask i t1 w))))
                                         else if isBlocked then (Inr False, w)
                                         else (Inr True, w)))))))"

fun eligible_filter :: "builtins \<Rightarrow> nat list \<Rightarrow> world \<Rightarrow> (exn + nat list) \<times> world" where
  "eligible_filter B [] w = (Inr [], w)"
| "eligible_filter B (i # is) w =
     (case eligible_one B i w of
        (Inl e, w1) \<Rightarrow> (Inl e, w1)
      | (Inr keep, w1) \<Rightarrow>
          (case eligible_filter B is w1 of
             (Inl e, w2) \<Rightarrow> (Inl e, w2)
           | (Inr ks, w2) \<Rightarrow> (Inr (if keep then i # ks else ks), w2)))"

text \<open>
  Step 3, the comparator of the sort and a stable insertion sort with it (the eligible
  tasks are sorted by their positions in the array, so that the chosen object is known).
  The comparator raises on a task without \<^verbatim>\<open>meta\<close> and, on strictly equal priorities,
  on a \<^verbatim>\<open>created_at\<close> that is not a string. A NaN difference sorts as 0.
\<close>

definition compareTasks :: "builtins \<Rightarrow> json \<Rightarrow> json \<Rightarrow> exn + rat" where
  "compareTasks B a b =
     (case js_get (Some b) ''meta'' of
        Inl e \<Rightarrow> Inl e
      | Inr mb \<Rightarrow>
          (case js_get mb ''priority'' of
             Inl e \<Rightarrow> Inl e
           | Inr pb \<Rightarrow>
               (case js_get (Some a) ''meta'' of
                  Inl e \<Rightarrow> Inl e
                | Inr ma \<Rightarrow>
                    (case js_get ma ''priority'' of
                       Inl e \<Rightarrow> Inl e
                     | Inr pa \<Rightarrow>
                         if \<not> strict_eq pb pa then
                           (case (toNumber B pb, toNumber B pa) of
                              (Some x, Some y) \<Rightarrow> Inr (x - y)
                            | _ \<Rightarrow> Inr 0)
                         else
                           (case field ma ''created_at'' of
                              Some (JStr ca) \<Rightarrow>
                                Inr (of_int (localeCompare B ca
                                      (case field mb ''created_at'' of
                                         Some (JStr cb) \<Rightarrow> cb
                                       | v \<Rightarrow> ToString B v)))
                            | _ \<Rightarrow> Inl TypeError)))))"

fun insert_task :: "builtins \<Rightarrow> json list \<Rightarrow> nat \<Rightarrow> nat list \<Rightarrow> exn + nat list" where
  "insert_task B ts x [] = Inr [x]"
| "insert_task B ts x (y # ys) =
     (case compareTasks B (ts ! x) (ts ! y) of
        Inl e \<Rightarrow> Inl e
      | Inr c \<Rightarrow>
          if c \<le> 0 then Inr (x # y # ys)
          else (case insert_task B ts x ys of Inl e \<Rightarrow> Inl e | Inr zs \<Rightarrow> Inr (y # zs)))"

fun sort_tasks :: "builtins \<Rightarrow> json list \<Rightarrow> nat list \<Rightarrow> exn + nat list" where
  "sort_tasks B ts [] = Inr []"
| "sort_tasks B ts (x # xs) =
     (case sort_tasks B ts xs of Inl e \<Rightarrow> Inl e | Inr ys \<Rightarrow> insert_task B ts x ys)"

text \<open>
  \<^verbatim>\<open>loadNextTask()\<close>: the queue (cached or scanned), the sweep over all tasks, the
  filter over all tasks, the sort, and the head of the sorted array or null (\<open>None\<close>).
  \<open>loadNextTask_index\<close> gives the position of the returned object in the cached array.
\<close>

definition loadNextTask_index :: "builtins \<Rightarrow> world \<Rightarrow> (exn + nat option) \<times> world" where
  "loadNextTask_index B w =
     (case getQueue False w of (allTasks, w1) \<Rightarrow>
        (case sweep B (clock w1) [0..<length allTasks] w1 of
           (Inl e, w2) \<Rightarrow> (Inl e, w2)
         | (Inr u, w2) \<Rightarrow>
             (case eligible_filter B [0..<length allTasks] w2 of
                (Inl e, w3) \<Rightarrow> (Inl e, w3)
              | (Inr ks, w3) \<Rightarrow>
                  (case sort_tasks B (tasks w3) ks of
                     Inl e \<Rightarrow> (Inl e, w3)
                   | Inr [] \<Rightarrow> (Inr None, w3)
                   | Inr (k # rest) \<Rightarrow> (Inr (Some k), w3)))))"

definition loadNextTask :: "builtins \<Rightarrow> world \<Rightarrow> (exn + json option) \<times> world" where
  "loadNextTask B w =
     (case loadNextTask_index B w of
        (Inl e, w1) \<Rightarrow> (Inl e, w1)
      | (Inr None, w1) \<Rightarrow> (Inr None, w1)
      | (Inr (Some k), w1) \<Rightarrow> (Inr (Some (tasks w1 ! k)), w1))"

text \<open>
  The quarantine name a scan at the time of \<open>w\<close> gives a queue file, and the document a
  queue file parses to (\<open>None\<close> for a missing, blank or unparsable file).
\<close>

definition badFile :: "world \<Rightarrow> string \<Rightarrow> path" where
  "badFile w f = Corrupt (f @ ''.'' @ dec (nat (clock w)) @ ''.bad'')"


text \<open>
  The disk states that a crash during the step from \<open>w\<close> to \<open>w'\<close> can leave behind:
  the states the step appended to the journal.
\<close>

definition crash_states :: "world \<Rightarrow> world \<Rightarrow> (path \<times> content) list list" where
  "crash_states w w' = drop (length (journal w)) (journal w')"

section \<open>index.js: taking the next task in\<close>

text \<open>
  Step 5 of the main loop: no task is an idle round; a task that \<^verbatim>\<open>parseTask\<close> rejects
  gets a new \<^verbatim>\<open>state\<close> object with status FAILED and the violation, and is handed to
  \<^verbatim>\<open>io.saveTask\<close>, whose error (it validates again) leaves the \<^verbatim>\<open>try\<close> block of the
  loop body; otherwise the validated task goes on to the lock. The rejected object is an
  element of the cached array, so the new state is stored there as well.
\<close>

datatype intake = Idle | Rejected | Accepted json

definition message :: "exn \<Rightarrow> string" where
  "message e =
     (case e of TypeError \<Rightarrow> ''TypeError'' | ZodError \<Rightarrow> ''ZodError''
              | InvalidInput \<Rightarrow> ''Input inv'' @ [CHR 0xC3, CHR 0xA1] @ ''lido: Task deve ser um objeto.''
              | FsError c \<Rightarrow> ''FsError'')"

definition failedState :: "exn \<Rightarrow> json" where
  "failedState e =
     JObj [(''status'', JStr ''FAILED''),
           (''last_error'', JStr (''Schema Violation: '' @ message e))]"

definition takeNextTask :: "builtins \<Rightarrow> world \<Rightarrow> (exn + intake) \<times> world" where
  "takeNextTask B w =
     (case loadNextTask_index B w of
        (Inl e, w1) \<Rightarrow> (Inl e, w1)
      | (Inr None, w1) \<Rightarrow> (Inr Idle, w1)
      | (Inr (Some k), w1) \<Rightarrow>
          (let rawTask = tasks w1 ! k in
           case parseTask B (clock w1) (Some rawTask) of
             Inr task \<Rightarrow> (Inr (Accepted task), w1)
           | Inl schemaErr \<Rightarrow>
               (let t1 = JObj (AList.update ''state'' (failedState schemaErr) (spread (Some rawTask)))
                in case saveTask B t1 (setTask k t1 w1) of
                     (Inl e, w2) \<Rightarrow> (Inl e, w2)
                   | (Inr u, w2) \<Rightarrow> (Inr Rejected, w2))))"

section \<open>Example inputs\<close>

text \<open>
  Example built-ins: two instants with their ISO strings, and a lower-casing that agrees
  with \<^verbatim>\<open>toLowerCase\<close> on strings of ASCII characters.
\<close>

definition asciiLower :: "char \<Rightarrow> char" where
  "asciiLower c =
     (case map_of (zip ''ABCDEFGHIJKLMNOPQRSTUVWXYZ'' ''abcdefghijklmnopqrstuvwxyz'') c of
        Some l \<Rightarrow> l
      | None \<Rightarrow> c)"

definition demoBuiltins :: builtins where
  "demoBuiltins =
     \<lparr>Date_parse = (\<lambda>v. if v = Some (JStr ''1970-01-01T00:00:00.000Z'') then Some 0
                         else if v = Some (JStr ''1970-01-01T02:00:00.000Z'') then Some 7200000
                         else None),
      toISOString = (\<lambda>n. if n = 7200000 then ''1970-01-01T02:00:00.000Z''
                          else ''1970-01-01T00:00:00.000Z''),
      is_datetime = (\<lambda>s. True),
      is_url = (\<lambda>s. True),
      localeCompare = (\<lambda>a b. 0),
      ToNumber = (\<lambda>v. None),
      ToString = (\<lambda>v. []),
      toLowerCase = map asciiLower\<rparr>"

definition emptyWorld :: world where
  "emptyWorld =
     \<lparr>disk = [], held = [], alive = [100, 200], clock = 7200000, pid = 100, rand = [],
      journal = [], globalQueueCache = None, isCacheDirty = True, lastFullScan = 0\<rparr>"

definition staleLockWorld :: world where
  "staleLockWorld =
     emptyWorld\<lparr>disk := [(Root ''RUNNING_chatgpt.lock'',
                            Doc (JObj [(''taskId'', JStr ''T0''), (''pid'', JNum 999),
                                       (''ts'', JStr ''1970-01-01T00:00:00.000Z'')]))]\<rparr>"

text \<open>
  A lock of a live process whose file another process holds open, and a queue with an
  unparsable file that another process keeps busy for five reads.
\<close>

definition heldLockWorld :: world where
  "heldLockWorld =
     emptyWorld\<lparr>disk := [(Root ''RUNNING_chatgpt.lock'',
                            Doc (JObj [(''taskId'', JStr ''T1''), (''pid'', JNum 100),
                                       (''ts'', JStr ''1970-01-01T00:00:00.000Z'')]))],
                held := [(Root ''RUNNING_chatgpt.lock'', 1)]\<rparr>"



definition busyTargetWorld :: world where
  "busyTargetWorld =
     emptyWorld\<lparr>disk := [(Queue ''T1.json'', Doc (JObj [(''old'', JBool True)]))],
                held := [(Queue ''T1.json'', 10)]\<rparr>"

definition validTask :: json where
  "validTask =
     JObj [(''meta'', JObj [(''id'', JStr ''T1''), (''created_at'', JStr ''2026-01-01T00:00:00.000Z'')]),
           (''spec'', JObj [(''payload'', JObj [(''user_message'', JStr ''hello'')])]),
           (''policy'', JObj []),
           (''state'', JObj [(''status'', JStr ''PENDING'')])]"


text \<open>
  The task that tests/helpers.js writes for tests/test_running_recovery.js (a RUNNING
  task started two hours before the clock of \<open>emptyWorld\<close>), and the same task with a
  \<^verbatim>\<open>source\<close> that the schema knows.
\<close>

definition helperTask :: "string \<Rightarrow> string \<Rightarrow> json" where
  "helperTask src status =
     JObj [(''meta'', JObj [(''id'', JStr ''test-zombie-v3''), (''version'', JStr ''3.0''),
                            (''created_at'', JStr ''1970-01-01T00:00:00.000Z''),
                            (''priority'', JNum 5), (''source'', JStr src),
                            (''tags'', JArr [JStr ''test''])]),
           (''spec'', JObj [(''target'', JStr ''chatgpt''), (''model'', JStr ''gpt-5''),
                            (''payload'', JObj [(''user_message'', JStr ''Zombie task'')]),
                            (''config'', JObj [(''reset_context'', JBool False)])]),
           (''policy'', JObj [(''max_attempts'', JNum 3), (''timeout_ms'', JNum 30000),
                              (''dependencies'', JArr [])]),
           (''state'', JObj [(''status'', JStr status), (''attempts'', JNum 0),
                             (''started_at'', JStr ''1970-01-01T00:00:00.000Z''),
                             (''history'', JArr [])])]"

definition zombieTestWorld :: world where
  "zombieTestWorld =
     emptyWorld\<lparr>disk := [(Queue ''test-zombie-v3.json'', Doc (helperTask ''test_suite'' ''RUNNING''))]\<rparr>"

definition zombieManualWorld :: world where
  "zombieManualWorld =
     emptyWorld\<lparr>disk := [(Queue ''test-zombie-v3.json'', Doc (helperTask ''manual'' ''RUNNING''))]\<rparr>"

text \<open>
  The third record of tests/test_schema_validation.js (a priority that is a string), as
  the test writes it and with an empty \<^verbatim>\<open>policy\<close> block added.
\<close>

definition typeErrTask :: "(string \<times> json) list \<Rightarrow> json" where
  "typeErrTask extra =
     JObj ([(''meta'', JObj [(''id'', JStr ''TEST-ERR-TYPE''),
                             (''created_at'', JStr ''1970-01-01T00:00:00.000Z''),
                             (''priority'', JStr ''MUITO_ALTA'')]),
            (''spec'', JObj [(''payload'', JObj [(''user_message'', JStr ''Erro de Tipo'')])]),
            (''state'', JObj [(''status'', JStr ''PENDING'')])] @ extra)"

definition schemaTestWorld :: "(string \<times> json) list \<Rightarrow> world" where
  "schemaTestWorld extra =
     emptyWorld\<lparr>disk := [(Queue ''TEST-ERR-TYPE.json'', Doc (typeErrTask extra)),
                           (Queue ''T1.json'', Doc validTask)]\<rparr>"

text \<open>
  Two queues for the dependency rule: a PENDING task \<^verbatim>\<open>T1\<close> that depends on the FAILED
  task \<^verbatim>\<open>T0\<close>, alone or after a dependency \<^verbatim>\<open>ghost\<close> that no task has.
\<close>

definition depTask :: "string \<Rightarrow> string \<Rightarrow> json list \<Rightarrow> json" where
  "depTask ident status deps =
     JObj [(''meta'', JObj [(''id'', JStr ident), (''created_at'', JStr ''1970-01-01T00:00:00.000Z'')]),
           (''spec'', JObj [(''payload'', JObj [(''user_message'', JStr ''hello'')])]),
           (''policy'', JObj [(''dependencies'', JArr deps)]),
           (''state'', JObj [(''status'', JStr status)])]"

definition depWorld :: "json list \<Rightarrow> world" where
  "depWorld deps =
     emptyWorld\<lparr>disk := [(Queue ''T0.json'', Doc (depTask ''T0'' ''FAILED'' [])),
                           (Queue ''T1.json'', Doc (depTask ''T1'' ''PENDING'' deps))]\<rparr>"

section \<open>Properties of the file-system primitives\<close>

lemma tmpPath_neq: "tmpPath p i u \<noteq> p"
  by (cases p) (simp_all add: tmpPath_def Let_def)

lemma heldOn_refuse_other: "q \<noteq> p \<Longrightarrow> heldOn (refuse q w) p = heldOn w p"
  by (simp add: heldOn_def refuse_def update_conv')

lemma heldOn_refuse_same: "heldOn (refuse p w) p = heldOn w p - 1"
  by (simp add: heldOn_def refuse_def update_conv')

lemma disk_refuse: "disk (refuse p w) = disk w"
  by (simp add: refuse_def)

lemma sleep_frame:
  "disk (sleep n w) = disk w" "held (sleep n w) = held w" "heldOn (sleep n w) p = heldOn w p"
  by (simp_all add: sleep_def heldOn_def)

lemma disk_writeFileSync: "map_of (disk (writeFileSync p c w)) p = Some c"
  by (simp add: writeFileSync_def commit_def update_conv')

lemma disk_writeFileSync_other: "q \<noteq> p \<Longrightarrow> map_of (disk (writeFileSync p c w)) q = map_of (disk w) q"
  by (simp add: writeFileSync_def commit_def update_conv')

lemma write_frame:
  "alive (writeFileSync p c w) = alive w" "pid (writeFileSync p c w) = pid w"
  "held (writeFileSync p c w) = held w"
  by (simp_all add: writeFileSync_def commit_def)

lemma unlink_frame:
  "pid (snd (unlinkSync p w)) = pid w" "alive (snd (unlinkSync p w)) = alive w"
  by (simp_all add: unlinkSync_def commit_def refuse_def split: option.splits)

lemma breakLock_frame:
  "pid (breakLock p w) = pid w" "alive (breakLock p w) = alive w" "clock (breakLock p w) = clock w"
  by (simp_all add: breakLock_def unlinkSync_def commit_def refuse_def split: option.splits)

lemma breakLock_disk:
  "map_of (disk (breakLock p w)) q = (if q = p \<and> heldOn w p = 0 then None else map_of (disk w) q)"
  by (auto simp: breakLock_def existsSync_def unlinkSync_def commit_def refuse_def delete_conv'
           split: option.splits)

lemma renameSync_frame:
  "pid (snd (renameSync a b w)) = pid w \<and> alive (snd (renameSync a b w)) = alive w"
  by (simp add: renameSync_def refuse_def commit_def split: option.splits)

section \<open>Properties of atomicWrite\<close>

lemma rename_loop_exhausted:
  "tmp \<noteq> fp \<Longrightarrow> existsSync fp w \<Longrightarrow> existsSync tmp w \<Longrightarrow> 10 - attempts \<le> heldOn w fp \<Longrightarrow>
   fst (rename_loop attempts tmp fp w) = Inr False \<and>
   disk (snd (rename_loop attempts tmp fp w)) = disk w"
proof (induction attempts tmp fp w rule: rename_loop.induct)
  case (1 attempts tmp filepath w)
  show ?case
  proof (cases "attempts < 10")
    case False
    then show ?thesis by (simp add: rename_loop.simps)
  next
    case True
    obtain c where c: "map_of (disk w) tmp = Some c"
      using "1.prems"(3) by (auto simp: existsSync_def)
    have pos: "0 < heldOn w filepath" using True "1.prems"(4) by simp
    define blocked where "blocked = (if 0 < heldOn w tmp then tmp else filepath)"
    let ?w1 = "refuse blocked w"
    have r: "renameSync tmp filepath w = (Inl (FsError EPERM), ?w1)"
      using c pos "1.prems"(2) by (simp add: renameSync_def blocked_def)
    have h: "10 - (attempts + 1) \<le> heldOn ?w1 filepath"
      using "1.prems"(1,4) by (auto simp: blocked_def heldOn_refuse_other heldOn_refuse_same)
    have ih: "fst (rename_loop (attempts + 1) tmp filepath (sleep (100 * (int attempts + 1)) ?w1)) = Inr False \<and>
       disk (snd (rename_loop (attempts + 1) tmp filepath (sleep (100 * (int attempts + 1)) ?w1)))
         = disk (sleep (100 * (int attempts + 1)) ?w1)"
      apply (rule "1.IH"[OF True r[symmetric] refl])
          apply simp
      using "1.prems" h by (simp_all add: existsSync_def sleep_frame disk_refuse)
    show ?thesis
      using ih True r by (subst (1 2) rename_loop.simps) (simp add: sleep_frame disk_refuse)
  qed
qed

text \<open>
  C9 (the code does not do what the claim says). When the target stays held for ten
  rename attempts, \<open>atomicWrite\<close> returns normally, and the target still has its old
  content.
\<close>

theorem atomicWrite_exhausted_returns_normally:
  assumes "existsSync filepath w" and "10 \<le> heldOn w filepath"
  shows "fst (atomicWrite filepath c w) = Inr () \<and>
         map_of (disk (snd (atomicWrite filepath c w))) filepath = map_of (disk w) filepath"
proof -
  obtain uuid w1 where u: "randomHex w = (uuid, w1)" by (cases "randomHex w")
  have w1: "disk w1 = disk w" "held w1 = held w" "pid w1 = pid w"
    using u by (auto simp: randomHex_def split: list.splits)
  let ?tmp = "tmpPath filepath (pid w) uuid"
  let ?w2 = "writeFileSync ?tmp c w1"
  have ne: "?tmp \<noteq> filepath" by (rule tmpPath_neq)
  have a: "existsSync filepath ?w2"
    using assms(1) ne w1 by (simp add: existsSync_def disk_writeFileSync_other)
  have b: "existsSync ?tmp ?w2" by (simp add: existsSync_def disk_writeFileSync)
  have c: "10 - 0 \<le> heldOn ?w2 filepath"
    using assms(2) w1 by (simp add: heldOn_def write_frame)
  from rename_loop_exhausted[OF ne a b c]
  have r: "fst (rename_loop 0 ?tmp filepath ?w2) = Inr False"
    and d: "disk (snd (rename_loop 0 ?tmp filepath ?w2)) = disk ?w2" by simp_all
  obtain w3 where w3: "rename_loop 0 ?tmp filepath ?w2 = (Inr False, w3)"
    using r by (cases "rename_loop 0 ?tmp filepath ?w2") simp
  have "atomicWrite filepath c w = (Inr (), w3)"
    by (simp add: atomicWrite_def u Let_def w3)
  moreover have "map_of (disk w3) filepath = map_of (disk w) filepath"
    using d w3 ne w1 by (simp add: disk_writeFileSync_other)
  ultimately show ?thesis by simp
qed

theorem atomicWrite_exhausted_witness:
  "existsSync (Queue ''T1.json'') busyTargetWorld \<and> 10 \<le> heldOn busyTargetWorld (Queue ''T1.json'')
   \<and> fst (atomicWrite (Queue ''T1.json'') (Doc (JObj [(''new'', JBool True)])) busyTargetWorld) = Inr ()
   \<and> map_of (disk (snd (atomicWrite (Queue ''T1.json'') (Doc (JObj [(''new'', JBool True)])) busyTargetWorld)))
        (Queue ''T1.json'') = Some (Doc (JObj [(''old'', JBool True)]))"
proof -
  have e: "existsSync (Queue ''T1.json'') busyTargetWorld"
    by (simp add: existsSync_def busyTargetWorld_def emptyWorld_def)
  have h: "10 \<le> heldOn busyTargetWorld (Queue ''T1.json'')"
    by (simp add: heldOn_def busyTargetWorld_def emptyWorld_def)
  have d: "map_of (disk busyTargetWorld) (Queue ''T1.json'') = Some (Doc (JObj [(''old'', JBool True)]))"
    by (simp add: busyTargetWorld_def emptyWorld_def)
  show ?thesis
    using atomicWrite_exhausted_returns_normally[OF e h, of "Doc (JObj [(''new'', JBool True)])"] e h d
    by simp
qed


section \<open>Properties of the lock\<close>

lemma read_loop_some:
  "read_loop k p w = (Some j, w') \<Longrightarrow> heldOn w' p = 0 \<and> disk w' = disk w \<and> existsSync p w"
proof (induction k arbitrary: w)
  case 0
  then show ?case by simp
next
  case (Suc k)
  show ?case
  proof (cases "map_of (disk w) p")
    case None
    then show ?thesis using Suc.prems by (simp add: readFileSync_def)
  next
    case (Some c)
    show ?thesis
    proof (cases "0 < heldOn w p")
      case True
      let ?w1 = "sleep 200 (refuse p w)"
      have "read_loop k p ?w1 = (Some j, w')"
        using True Some Suc.prems by (simp add: readFileSync_def)
      from Suc.IH[OF this] show ?thesis
        using Some by (simp add: sleep_def refuse_def existsSync_def)
    next
      case False
      then show ?thesis
        using Some Suc.prems
        by (cases c) (auto simp: readFileSync_def quarantine_def Let_def existsSync_def)
    qed
  qed
qed

lemma safeReadJSON_some:
  assumes "safeReadJSON p w = (s, w2)" and "truthy s"
  shows "existsSync p w \<and> heldOn w2 p = 0 \<and> disk w2 = disk w"
proof -
  obtain j where j: "s = Some j" using assms(2) by (cases s) auto
  have e: "existsSync p w" using assms(1) j by (auto simp: safeReadJSON_def split: if_splits)
  have "read_loop 5 p w = (Some j, w2)" using assms(1) j e by (simp add: safeReadJSON_def)
  from read_loop_some[OF this] show ?thesis by simp
qed

lemma acquireLock_fresh:
  "\<not> existsSync (lockFile B t) w \<Longrightarrow>
   acquireLock B i t w =
     (if CHR ''/'' \<in> set (basename (lockFile B t)) then (False, w)
      else (True, writeFileSync (lockFile B t) (Doc (lockData B i w)) w))"
  by (subst acquireLock.simps) (simp add: writeFileSync_wx_def safeReadJSON_def)

lemma acquireLock_unfold:
  "acquireLock B i t w =
     (if \<not> existsSync (lockFile B t) w
      then (if CHR ''/'' \<in> set (basename (lockFile B t)) then (False, w)
            else (True, writeFileSync (lockFile B t) (Doc (lockData B i w)) w))
      else (case safeReadJSON (lockFile B t) w of (s, w2) \<Rightarrow>
              if truthy s \<and> \<not> isProcessAlive B (recordedPid s) w2
              then (let w3 = breakLock (lockFile B t) w2
                    in if CHR ''/'' \<in> set (basename (lockFile B t)) then (False, w3)
                       else (True, writeFileSync (lockFile B t) (Doc (lockData B i w3)) w3))
              else (False, w2)))"
proof (cases "existsSync (lockFile B t) w")
  case False
  then show ?thesis by (simp add: acquireLock_fresh)
next
  case True
  obtain s w2 where r: "safeReadJSON (lockFile B t) w = (s, w2)"
    by (cases "safeReadJSON (lockFile B t) w")
  show ?thesis
  proof (cases "truthy s \<and> \<not> isProcessAlive B (recordedPid s) w2")
    case False
    then show ?thesis
      using True r by (subst acquireLock.simps) (auto simp: writeFileSync_wx_def)
  next
    case c: True
    from safeReadJSON_some[OF r] c have "heldOn w2 (lockFile B t) = 0" by simp
    then have n: "\<not> existsSync (lockFile B t) (breakLock (lockFile B t) w2)"
      by (simp add: existsSync_def breakLock_disk)
    have "acquireLock B i t w = acquireLock B i t (breakLock (lockFile B t) w2)"
      using True r c by (subst acquireLock.simps) (simp add: writeFileSync_wx_def)
    then show ?thesis
      using True r c by (simp add: acquireLock_fresh[OF n] Let_def)
  qed
qed

lemma lock_run_Returned: "lock_run n B i t (Returned b) w = (Returned b, w)"
  by (induction n) (simp_all add: lock_step_def)

lemma lock_run_fresh:
  assumes "\<not> existsSync (lockFile B t) w"
  shows "lock_run (Suc (Suc (Suc n))) B i t Create w =
           (Returned (fst (acquireLock B i t w)), snd (acquireLock B i t w))"
  using assms
  by (simp add: acquireLock_fresh lock_step_def writeFileSync_wx_def safeReadJSON_def
        lock_run_Returned)

lemma lock_run_acquireLock:
  "lock_run (Suc (Suc (Suc (Suc (Suc (Suc n)))))) B i t Create w =
     (Returned (fst (acquireLock B i t w)), snd (acquireLock B i t w))"
proof (cases "existsSync (lockFile B t) w")
  case False
  then show ?thesis by (rule lock_run_fresh)
next
  case True
  obtain s w2 where r: "safeReadJSON (lockFile B t) w = (s, w2)"
    by (cases "safeReadJSON (lockFile B t) w")
  show ?thesis
  proof (cases "truthy s \<and> \<not> isProcessAlive B (recordedPid s) w2")
    case False
    then show ?thesis
      using True r
      by (subst acquireLock.simps, subst (2) acquireLock.simps)
         (auto simp: lock_step_def writeFileSync_wx_def lock_run_Returned)
  next
    case c: True
    from safeReadJSON_some[OF r] c have "heldOn w2 (lockFile B t) = 0" by simp
    then have n: "\<not> existsSync (lockFile B t) (breakLock (lockFile B t) w2)"
      by (simp add: existsSync_def breakLock_disk)
    have a: "acquireLock B i t w = acquireLock B i t (breakLock (lockFile B t) w2)"
      using True r c by (subst acquireLock.simps) (simp add: writeFileSync_wx_def)
    have "lock_run (Suc (Suc (Suc (Suc (Suc (Suc n)))))) B i t Create w =
          lock_run (Suc (Suc (Suc n))) B i t Create (breakLock (lockFile B t) w2)"
      using True r c by (simp add: lock_step_def writeFileSync_wx_def)
    then show ?thesis by (simp only: a lock_run_fresh[OF n])
  qed
qed


text \<open>
  C1 (defect). The lock file \<^verbatim>\<open>RUNNING_chatgpt.lock\<close> records the dead process 999.
  Two live processes, 100 with task T1 and 200 with task T2, attempt the lock of target
  \<^verbatim>\<open>chatgpt\<close>. Each fails the exclusive create and reads the stale lock; then the
  first unlinks it, creates its own lock and returns true; then the second, acting on
  what it read before, unlinks the lock of the first, creates its own and returns true
  as well. Both attempts have succeeded, both owners are alive, and the lock file that
  remains records the second one only.
\<close>

theorem acquireLock_stale_lock_race:
  "(case run_schedule demoBuiltins ''chatgpt'' [0, 0, 1, 1, 0, 0, 1, 1]
           [(100, ''T1'', Create), (200, ''T2'', Create)] staleLockWorld of
      (attempts, w) \<Rightarrow>
        attempts = [(100, ''T1'', Returned True), (200, ''T2'', Returned True)]
        \<and> isProcessAlive demoBuiltins (Some (JNum 100)) w
        \<and> isProcessAlive demoBuiltins (Some (JNum 200)) w
        \<and> map_of (disk w) (lockFile demoBuiltins ''chatgpt'') =
             Some (Doc (JObj [(''taskId'', JStr ''T2''), (''pid'', JNum 200),
                              (''ts'', JStr ''1970-01-01T02:00:00.000Z'')])))"
  by code_simp


lemma read_loop_doc:
  "map_of (disk w) p = Some (Doc j) \<Longrightarrow>
   (fst (read_loop k p w) = None \<or> fst (read_loop k p w) = Some j) \<and>
   disk (snd (read_loop k p w)) = disk w"
proof (induction k arbitrary: w)
  case 0
  then show ?case by simp
next
  case (Suc k)
  show ?case
  proof (cases "0 < heldOn w p")
    case True
    let ?w1 = "sleep 200 (refuse p w)"
    have d: "map_of (disk ?w1) p = Some (Doc j)" using Suc.prems by (simp add: sleep_def refuse_def)
    have "read_loop (Suc k) p w = read_loop k p ?w1"
      using True Suc.prems by (simp add: readFileSync_def)
    with Suc.IH[OF d] show ?thesis by (simp add: sleep_def refuse_def)
  next
    case False
    then show ?thesis using Suc.prems by (simp add: readFileSync_def)
  qed
qed

lemma read_loop_frame:
  "pid (snd (read_loop k p w)) = pid w \<and> alive (snd (read_loop k p w)) = alive w"
proof (induction k arbitrary: w)
  case 0
  then show ?case by simp
next
  case (Suc k)
  have s: "pid (sleep 200 (refuse p w)) = pid w \<and> alive (sleep 200 (refuse p w)) = alive w"
    by (simp add: sleep_def refuse_def)
  show ?case
    using Suc.IH[of "sleep 200 (refuse p w)"] s renameSync_frame[of p _ w]
    by (auto simp: readFileSync_def quarantine_def Let_def split: option.splits content.splits)
qed

lemma safeReadJSON_frame:
  "safeReadJSON p w = (s, w2) \<Longrightarrow> pid w2 = pid w \<and> alive w2 = alive w"
  using read_loop_frame[of 5 p w] by (auto simp: safeReadJSON_def split: if_splits)

lemma isProcessAlive_cong: "alive w' = alive w \<Longrightarrow> isProcessAlive B v w' = isProcessAlive B v w"
  by (simp add: isProcessAlive_def split: option.splits)

lemma acquireLock_frame:
  "pid (snd (acquireLock B i t w)) = pid w \<and> alive (snd (acquireLock B i t w)) = alive w"
proof -
  obtain s w2 where r: "safeReadJSON (lockFile B t) w = (s, w2)"
    by (cases "safeReadJSON (lockFile B t) w")
  from safeReadJSON_frame[OF r] show ?thesis
    unfolding acquireLock_unfold[of B i t w]
    by (simp add: r Let_def write_frame breakLock_frame)
qed

lemma acquireLock_live_owner:
  assumes "map_of (disk w) (lockFile B t) = Some (Doc j)"
    and "isProcessAlive B (recordedPid (Some j)) w"
  shows "fst (acquireLock B i t w) = False \<and> disk (snd (acquireLock B i t w)) = disk w"
proof -
  obtain s w2 where r: "read_loop 5 (lockFile B t) w = (s, w2)"
    by (cases "read_loop 5 (lockFile B t) w")
  from read_loop_doc[OF assms(1), of 5] r
  have s: "s = None \<or> s = Some j" and d: "disk w2 = disk w" by auto
  from read_loop_frame[of 5 "lockFile B t" w] r have a: "alive w2 = alive w" by simp
  have ex: "existsSync (lockFile B t) w" using assms(1) by (simp add: existsSync_def)
  have al: "s = Some j \<Longrightarrow> isProcessAlive B (recordedPid s) w2"
    using assms(2) isProcessAlive_cong[OF a] by simp
  show ?thesis
    using s al d by (auto simp: acquireLock_unfold ex safeReadJSON_def r)
qed

lemma acquireLock_success_records:
  assumes "fst (acquireLock B i t w)"
  shows "\<exists>ts. map_of (disk (snd (acquireLock B i t w))) (lockFile B t) =
           Some (Doc (JObj [(''taskId'', JStr i), (''pid'', JNum (of_int (pid w))), (''ts'', JStr ts)]))"
proof -
  obtain s w2 where r: "safeReadJSON (lockFile B t) w = (s, w2)"
    by (cases "safeReadJSON (lockFile B t) w")
  from safeReadJSON_frame[OF r] have p: "pid w2 = pid w" by simp
  show ?thesis
    using assms unfolding acquireLock_unfold[of B i t w]
    by (auto simp: r Let_def disk_writeFileSync lockData_def breakLock_frame p split: if_splits)
qed

text \<open>
  C10 (as stated, refuted). A release swallows the error of the unlink: when another
  process holds the lock file open, \<^verbatim>\<open>releaseLock('ChatGPT')\<close> leaves the lock of
  \<^verbatim>\<open>chatgpt\<close> in place.
\<close>

theorem releaseLock_refused_keeps_lock:
  "map_of (disk (releaseLock demoBuiltins ''ChatGPT'' heldLockWorld))
     (Root (''RUNNING_'' @ toLowerCase demoBuiltins ''ChatGPT'' @ ''.lock'')) =
   Some (Doc (JObj [(''taskId'', JStr ''T1''), (''pid'', JNum 100),
                    (''ts'', JStr ''1970-01-01T00:00:00.000Z'')]))"
  by code_simp

text \<open>
  C10 (amended). The lock file of a target \<open>t\<close> is \<^verbatim>\<open>RUNNING_<t.toLowerCase()>.lock\<close> in
  the project root. Hence \<open>acquireLock\<close> and \<open>releaseLock\<close> give the same result on two
  targets with the same lower-case form. A release changes no file but this one, and
  removes it unless another process holds it (then it stays). A successful acquire has
  written into this file the record of the caller. After a successful acquire under one
  spelling by a process that passes the liveness probe, an attempt under another spelling
  of the same target, by any process \<open>q\<close>, returns false.
\<close>

theorem lock_target_case_insensitive:
  "lockFile B t = Root (''RUNNING_'' @ toLowerCase B t @ ''.lock'')
   \<and> (toLowerCase B t = toLowerCase B t' \<longrightarrow>
        acquireLock B i t w = acquireLock B i t' w \<and> releaseLock B t w = releaseLock B t' w)
   \<and> (\<forall>p. map_of (disk (releaseLock B t w)) p =
            (if p = Root (''RUNNING_'' @ toLowerCase B t @ ''.lock'') \<and> heldOn w p = 0 then None
             else map_of (disk w) p))
   \<and> (fst (acquireLock B i t w) \<longrightarrow>
        (\<exists>ts. map_of (disk (snd (acquireLock B i t w)))
                 (Root (''RUNNING_'' @ toLowerCase B t @ ''.lock'')) =
               Some (Doc (JObj [(''taskId'', JStr i), (''pid'', JNum (of_int (pid w))),
                                (''ts'', JStr ts)]))))
   \<and> (toLowerCase B t = toLowerCase B t' \<and> fst (acquireLock B i t w) \<and>
        isProcessAlive B (Some (JNum (of_int (pid w)))) w \<longrightarrow>
        \<not> fst (acquireLock B i' t' ((snd (acquireLock B i t w))\<lparr>pid := q\<rparr>)))"
proof -
  have lf: "lockFile B t = Root (''RUNNING_'' @ toLowerCase B t @ ''.lock'')"
    by (simp add: lockFile_def)
  have c: "acquireLock B i t w = acquireLock B i t' w \<and> releaseLock B t w = releaseLock B t' w"
    if "toLowerCase B t = toLowerCase B t'"
  proof -
    have e: "lockFile B t = lockFile B t'" using that by (simp add: lockFile_def)
    show ?thesis unfolding acquireLock_unfold releaseLock_def e by simp
  qed
  have r: "map_of (disk (releaseLock B t w)) p =
            (if p = Root (''RUNNING_'' @ toLowerCase B t @ ''.lock'') \<and> heldOn w p = 0 then None
             else map_of (disk w) p)" for p
    unfolding releaseLock_def breakLock_disk lf by auto
  have s: "\<exists>ts. map_of (disk (snd (acquireLock B i t w)))
                 (Root (''RUNNING_'' @ toLowerCase B t @ ''.lock'')) =
               Some (Doc (JObj [(''taskId'', JStr i), (''pid'', JNum (of_int (pid w))),
                                (''ts'', JStr ts)]))"
    if "fst (acquireLock B i t w)"
    using acquireLock_success_records[OF that] unfolding lf .
  have m: "\<not> fst (acquireLock B i' t' ((snd (acquireLock B i t w))\<lparr>pid := q\<rparr>))"
    if e: "toLowerCase B t = toLowerCase B t'" and a: "fst (acquireLock B i t w)"
      and p: "isProcessAlive B (Some (JNum (of_int (pid w)))) w"
  proof -
    let ?w1 = "(snd (acquireLock B i t w))\<lparr>pid := q\<rparr>"
    have l: "lockFile B t' = lockFile B t" using e by (simp add: lockFile_def)
    from acquireLock_success_records[OF a] obtain ts where
      d: "map_of (disk ?w1) (lockFile B t') =
            Some (Doc (JObj [(''taskId'', JStr i), (''pid'', JNum (of_int (pid w))), (''ts'', JStr ts)]))"
      unfolding l by auto
    have al: "alive ?w1 = alive w" using acquireLock_frame[of B i t w] by simp
    have "isProcessAlive B (recordedPid (Some (JObj [(''taskId'', JStr i),
             (''pid'', JNum (of_int (pid w))), (''ts'', JStr ts)]))) ?w1"
      using p isProcessAlive_cong[OF al] by (simp add: recordedPid_def)
    from acquireLock_live_owner[OF d this] show ?thesis by simp
  qed
  show ?thesis
    using lf c r s m by (intro conjI impI allI) simp_all
qed

theorem lock_target_case_insensitive_witness:
  "toLowerCase demoBuiltins ''ChatGPT'' = toLowerCase demoBuiltins ''chatgpt''
   \<and> fst (acquireLock demoBuiltins ''T1'' ''ChatGPT'' emptyWorld)
   \<and> isProcessAlive demoBuiltins (Some (JNum (of_int (pid emptyWorld)))) emptyWorld
   \<and> lockFile demoBuiltins ''ChatGPT'' = Root ''RUNNING_chatgpt.lock''
   \<and> acquireLock demoBuiltins ''T1'' ''ChatGPT'' emptyWorld =
       acquireLock demoBuiltins ''T1'' ''chatgpt'' emptyWorld
   \<and> (\<exists>ts. map_of (disk (snd (acquireLock demoBuiltins ''T1'' ''ChatGPT'' emptyWorld)))
              (Root ''RUNNING_chatgpt.lock'') =
            Some (Doc (JObj [(''taskId'', JStr ''T1''), (''pid'', JNum 100), (''ts'', JStr ts)])))
   \<and> \<not> fst (acquireLock demoBuiltins ''T2'' ''chatgpt''
              ((snd (acquireLock demoBuiltins ''T1'' ''ChatGPT'' emptyWorld))\<lparr>pid := 200\<rparr>))"
proof -
  have h: "toLowerCase demoBuiltins ''ChatGPT'' = toLowerCase demoBuiltins ''chatgpt''"
    by (simp add: demoBuiltins_def asciiLower_def)
  have n: "''RUNNING_'' @ toLowerCase demoBuiltins ''ChatGPT'' @ ''.lock'' = ''RUNNING_chatgpt.lock''"
    by (simp add: demoBuiltins_def asciiLower_def)
  have t0: "toLowerCase demoBuiltins ''ChatGPT'' = ''chatgpt''"
    by (simp add: demoBuiltins_def asciiLower_def)
  have f: "fst (acquireLock demoBuiltins ''T1'' ''ChatGPT'' emptyWorld)"
    by (simp add: acquireLock_unfold lockFile_def t0 existsSync_def emptyWorld_def basename_def)
  have p: "isProcessAlive demoBuiltins (Some (JNum (of_int (pid emptyWorld)))) emptyWorld"
    by (simp add: isProcessAlive_def toNumber_def emptyWorld_def)
  have q: "JNum (of_int (pid emptyWorld)) = JNum 100" by (simp add: emptyWorld_def)
  note T = lock_target_case_insensitive[of demoBuiltins "''ChatGPT''" "''chatgpt''" "''T1''"
             emptyWorld "''T2''" 200, unfolded n q]
  have p': "isProcessAlive demoBuiltins (Some (JNum 100)) emptyWorld" using p q by simp
  from T have l: "lockFile demoBuiltins ''ChatGPT'' = Root ''RUNNING_chatgpt.lock''" by blast
  from T h have a: "acquireLock demoBuiltins ''T1'' ''ChatGPT'' emptyWorld =
       acquireLock demoBuiltins ''T1'' ''chatgpt'' emptyWorld" by blast
  from T f have e: "\<exists>ts. map_of (disk (snd (acquireLock demoBuiltins ''T1'' ''ChatGPT'' emptyWorld)))
              (Root ''RUNNING_chatgpt.lock'') =
            Some (Doc (JObj [(''taskId'', JStr ''T1''), (''pid'', JNum 100), (''ts'', JStr ts)]))"
    by blast
  from T h f p' have m: "\<not> fst (acquireLock demoBuiltins ''T2'' ''chatgpt''
              ((snd (acquireLock demoBuiltins ''T1'' ''ChatGPT'' emptyWorld))\<lparr>pid := 200\<rparr>))"
    by blast
  from h f p l a e m show ?thesis by blast
qed


section \<open>Crash states of the atomic write\<close>

lemma rename_loop_journal:
  "map_of (disk w) tmp = Some c \<Longrightarrow> tmp \<noteq> fp \<Longrightarrow>
   \<exists>js. journal (snd (rename_loop a tmp fp w)) = journal w @ js \<and>
        (\<forall>d \<in> set js. map_of d fp = Some c) \<and>
        (fst (rename_loop a tmp fp w) = Inr True \<longrightarrow>
           map_of (disk (snd (rename_loop a tmp fp w))) fp = Some c) \<and>
        (fst (rename_loop a tmp fp w) \<noteq> Inr True \<longrightarrow>
           disk (snd (rename_loop a tmp fp w)) = disk w)"
proof (induction a tmp fp w rule: rename_loop.induct)
  case (1 attempts tmp filepath w)
  show ?case
  proof (cases "attempts < 10")
    case False
    then show ?thesis by (simp add: rename_loop.simps)
  next
    case True
    show ?thesis
    proof (cases "0 < heldOn w tmp \<or> (existsSync filepath w \<and> 0 < heldOn w filepath)")
      case False
      then have r: "renameSync tmp filepath w =
          (Inr (), commit (AList.update filepath c (AList.delete tmp (disk w))) w)"
        using "1.prems"(1) by (auto simp: renameSync_def)
      show ?thesis
        using True r "1.prems"(2)
        by (subst (1 2 3 4 5) rename_loop.simps) (simp add: commit_def update_conv')
    next
      case h: True
      define blocked where "blocked = (if 0 < heldOn w tmp then tmp else filepath)"
      let ?w1 = "refuse blocked w"
      let ?w2 = "sleep (100 * (int attempts + 1)) ?w1"
      have r: "renameSync tmp filepath w = (Inl (FsError EPERM), ?w1)"
        using h "1.prems"(1) by (auto simp: renameSync_def blocked_def)
      have d: "map_of (disk ?w2) tmp = Some c" "disk ?w2 = disk w" "journal ?w2 = journal w"
        using "1.prems"(1) by (simp_all add: sleep_def refuse_def)
      have e: "rename_loop attempts tmp filepath w = rename_loop (attempts + 1) tmp filepath ?w2"
        using True r by (subst rename_loop.simps) simp
      from "1.IH"[OF True r[symmetric] refl _ d(1) "1.prems"(2)]
      show ?thesis unfolding e d(2,3) by simp
    qed
  qed
qed

lemma atomicWrite_journal:
  "\<exists>js. journal (snd (atomicWrite fp c w)) = journal w @ js \<and>
        (\<forall>d \<in> set js. map_of d fp = map_of (disk w) fp \<or> map_of d fp = Some c)"
proof -
  obtain uuid w1 where u: "randomHex w = (uuid, w1)" by (cases "randomHex w")
  have w1: "disk w1 = disk w" "journal w1 = journal w" "pid w1 = pid w"
    using u by (auto simp: randomHex_def split: list.splits)
  let ?tmp = "tmpPath fp (pid w) uuid"
  let ?w2 = "writeFileSync ?tmp c w1"
  have ne: "?tmp \<noteq> fp" by (rule tmpPath_neq)
  have j2: "journal ?w2 = journal w @ [AList.update ?tmp Blank (disk w),
              AList.update ?tmp Malformed (disk w), AList.update ?tmp c (disk w)]"
    by (simp add: writeFileSync_def commit_def w1)
  have d2: "map_of (disk ?w2) ?tmp = Some c" by (rule disk_writeFileSync)
  have o2: "map_of (disk ?w2) fp = map_of (disk w) fp"
    using ne by (simp add: disk_writeFileSync_other w1)
  from rename_loop_journal[OF d2 ne, of 0] obtain js where
    js: "journal (snd (rename_loop 0 ?tmp fp ?w2)) = journal ?w2 @ js"
      "\<forall>d \<in> set js. map_of d fp = Some c"
      "fst (rename_loop 0 ?tmp fp ?w2) \<noteq> Inr True \<longrightarrow> disk (snd (rename_loop 0 ?tmp fp ?w2)) = disk ?w2"
    by blast
  obtain r w3 where r: "rename_loop 0 ?tmp fp ?w2 = (r, w3)" by (cases "rename_loop 0 ?tmp fp ?w2")
  show ?thesis
  proof (cases r)
    case (Inr b)
    then have "snd (atomicWrite fp c w) = w3"
      by (simp add: atomicWrite_def u Let_def r)
    then show ?thesis
      using js(1,2) r j2 ne by (auto simp: update_conv')
  next
    case (Inl e)
    then have s: "snd (atomicWrite fp c w) = (if existsSync ?tmp w3 then snd (unlinkSync ?tmp w3) else w3)"
      by (simp add: atomicWrite_def u Let_def r)
    have dw3: "disk w3 = disk ?w2" using js(3) r Inl by simp
    have "journal (snd (atomicWrite fp c w)) = journal w3 \<or>
          journal (snd (atomicWrite fp c w)) = journal w3 @ [AList.delete ?tmp (disk w3)]"
      unfolding s by (simp add: unlinkSync_def commit_def refuse_def split: option.splits)
    moreover have "map_of (AList.delete ?tmp (disk w3)) fp = map_of (disk w) fp"
      using ne o2 by (simp add: dw3 delete_conv')
    ultimately show ?thesis
      using js(1,2) r j2 ne by (auto simp: update_conv')
  qed
qed

lemma atomicWrite_result:
  "map_of (disk (snd (atomicWrite fp c w))) fp = Some c \<or>
   map_of (disk (snd (atomicWrite fp c w))) fp = map_of (disk w) fp"
proof -
  obtain uuid w1 where u: "randomHex w = (uuid, w1)" by (cases "randomHex w")
  have w1: "disk w1 = disk w" using u by (auto simp: randomHex_def split: list.splits)
  let ?tmp = "tmpPath fp (pid w) uuid"
  let ?w2 = "writeFileSync ?tmp c w1"
  have ne: "?tmp \<noteq> fp" by (rule tmpPath_neq)
  have d2: "map_of (disk ?w2) ?tmp = Some c" by (rule disk_writeFileSync)
  have o2: "map_of (disk ?w2) fp = map_of (disk w) fp"
    using ne by (simp add: disk_writeFileSync_other w1)
  obtain r w3 where r: "rename_loop 0 ?tmp fp ?w2 = (r, w3)" by (cases "rename_loop 0 ?tmp fp ?w2")
  from rename_loop_journal[OF d2 ne, of 0] r
  have k: "(r = Inr True \<longrightarrow> map_of (disk w3) fp = Some c) \<and> (r \<noteq> Inr True \<longrightarrow> disk w3 = disk ?w2)"
    by auto
  show ?thesis
  proof (cases r)
    case (Inr b)
    then have "snd (atomicWrite fp c w) = w3" by (simp add: atomicWrite_def u Let_def r)
    with k o2 Inr show ?thesis by (cases b) auto
  next
    case (Inl e)
    then have s: "snd (atomicWrite fp c w) = (if existsSync ?tmp w3 then snd (unlinkSync ?tmp w3) else w3)"
      by (simp add: atomicWrite_def u Let_def r)
    have "map_of (disk (snd (atomicWrite fp c w))) fp = map_of (disk w3) fp"
      unfolding s using ne
      by (simp add: unlinkSync_def commit_def refuse_def delete_conv' split: option.splits)
    with k o2 Inl show ?thesis by simp
  qed
qed

lemma atomicWrite_unheld:
  assumes "held w = []"
  shows "fst (atomicWrite fp c w) = Inr () \<and> map_of (disk (snd (atomicWrite fp c w))) fp = Some c
         \<and> held (snd (atomicWrite fp c w)) = [] \<and> clock (snd (atomicWrite fp c w)) = clock w"
proof -
  obtain uuid w1 where u: "randomHex w = (uuid, w1)" by (cases "randomHex w")
  have w1: "held w1 = []" "clock w1 = clock w"
    using u assms by (auto simp: randomHex_def split: list.splits)
  let ?tmp = "tmpPath fp (pid w) uuid"
  let ?w2 = "writeFileSync ?tmp c w1"
  have h: "heldOn ?w2 p = 0" for p by (simp add: heldOn_def writeFileSync_def commit_def w1)
  have d2: "map_of (disk ?w2) ?tmp = Some c" by (rule disk_writeFileSync)
  have r: "renameSync ?tmp fp ?w2 =
          (Inr (), commit (AList.update fp c (AList.delete ?tmp (disk ?w2))) ?w2)"
    using d2 h by (simp add: renameSync_def)
  have "rename_loop 0 ?tmp fp ?w2 = (Inr True, commit (AList.update fp c (AList.delete ?tmp (disk ?w2))) ?w2)"
    using r by (subst rename_loop.simps) simp
  then show ?thesis
    by (simp add: atomicWrite_def u Let_def commit_def update_conv' writeFileSync_def w1)
qed

lemma saveTask_unheld:
  assumes "held w = []" and "parseTask B (clock w) (Some task) = Inr v"
  shows "fst (saveTask B task w) = Inr () \<and>
         map_of (disk (snd (saveTask B task w))) (taskFile v) = Some (Doc v)"
  using atomicWrite_unheld[OF assms(1), of "taskFile v" "Doc v"] assms(2)
  by (auto simp: saveTask_def split: prod.splits sum.splits)

text \<open>
  C4. \<open>saveTask\<close> validates first: a task that fails validation returns the error and
  leaves the world as it is. For a task that passes, every disk state that a crash during
  the save can leave behind has, at the task's file, either what was there before the
  save (possibly no file) or the complete new document; the cut-short states of the write
  are states of the temporary sibling only.
\<close>

theorem saveTask_atomic_replace:
  "(case parseTask B (clock w) (Some task) of
      Inl e \<Rightarrow> saveTask B task w = (Inl e, w)
    | Inr v \<Rightarrow>
        (\<forall>d \<in> set (crash_states w (snd (saveTask B task w))).
            map_of d (taskFile v) = map_of (disk w) (taskFile v) \<or>
            map_of d (taskFile v) = Some (Doc v)) \<and>
        (map_of (disk (snd (saveTask B task w))) (taskFile v) = map_of (disk w) (taskFile v) \<or>
         map_of (disk (snd (saveTask B task w))) (taskFile v) = Some (Doc v)) \<and>
        (held w = [] \<longrightarrow>
           fst (saveTask B task w) = Inr () \<and>
           map_of (disk (snd (saveTask B task w))) (taskFile v) = Some (Doc v)))"
proof (cases "parseTask B (clock w) (Some task)")
  case (Inl e)
  then show ?thesis by (simp add: saveTask_def)
next
  case (Inr v)
  obtain r w1 where a: "atomicWrite (taskFile v) (Doc v) w = (r, w1)"
    by (cases "atomicWrite (taskFile v) (Doc v) w")
  have j: "journal (snd (saveTask B task w)) = journal w1" and d: "disk (snd (saveTask B task w)) = disk w1"
    using Inr a by (auto simp: saveTask_def split: sum.splits)
  from atomicWrite_journal[of "taskFile v" "Doc v" w] a obtain js where
    js: "journal w1 = journal w @ js"
      "\<forall>d \<in> set js. map_of d (taskFile v) = map_of (disk w) (taskFile v) \<or> map_of d (taskFile v) = Some (Doc v)"
    by auto
  have c: "crash_states w (snd (saveTask B task w)) = js"
    by (simp add: crash_states_def j js(1))
  from atomicWrite_result[of "taskFile v" "Doc v" w] a
  have "map_of (disk w1) (taskFile v) = Some (Doc v) \<or>
        map_of (disk w1) (taskFile v) = map_of (disk w) (taskFile v)" by simp
  moreover have "fst (saveTask B task w) = Inr () \<and>
           map_of (disk (snd (saveTask B task w))) (taskFile v) = Some (Doc v)" if "held w = []"
    using atomicWrite_unheld[OF that, of "taskFile v" "Doc v"] Inr
    by (auto simp: saveTask_def split: prod.splits sum.splits)
  ultimately show ?thesis using Inr c js(2) d by auto
qed

theorem saveTask_atomic_replace_witness:
  "(case parseTask demoBuiltins (clock emptyWorld) (Some validTask) of Inl e \<Rightarrow> False | Inr v \<Rightarrow>
      taskFile v = Queue ''T1.json'' \<and>
      length (crash_states emptyWorld (snd (saveTask demoBuiltins validTask emptyWorld))) = 4 \<and>
      (\<forall>d \<in> set (crash_states emptyWorld (snd (saveTask demoBuiltins validTask emptyWorld))).
          map_of d (Queue ''T1.json'') = None \<or> map_of d (Queue ''T1.json'') = Some (Doc v)) \<and>
      map_of (disk (snd (saveTask demoBuiltins validTask emptyWorld))) (Queue ''T1.json'') = Some (Doc v))"
proof -
  have p: "(case parseTask demoBuiltins (clock emptyWorld) (Some validTask) of Inl e \<Rightarrow> False | Inr v \<Rightarrow>
      taskFile v = Queue ''T1.json'')"
    by code_simp
  have l: "length (crash_states emptyWorld (snd (saveTask demoBuiltins validTask emptyWorld))) = 4"
    by code_simp
  have h: "held emptyWorld = []" "map_of (disk emptyWorld) (Queue ''T1.json'') = None"
    by (simp_all add: emptyWorld_def)
  show ?thesis
    using saveTask_atomic_replace[where B = demoBuiltins and w = emptyWorld and task = validTask] p l h
    by (auto split: sum.splits)
qed


section \<open>Properties of the queue scan\<close>
















section \<open>The scheduler on records that do not pass the schema\<close>

text \<open>
  C2 (defect). The queue holds the task that tests/helpers.js writes for the recovery
  test: RUNNING since two hours, with \<^verbatim>\<open>meta.source = "test_suite"\<close>. The sweep marks
  it FAILED in memory and calls \<^verbatim>\<open>saveTask\<close>, which validates the whole task again;
  \<^verbatim>\<open>test_suite\<close> is not a value of the \<^verbatim>\<open>source\<close> enum, so \<^verbatim>\<open>saveTask\<close> raises,
  \<^verbatim>\<open>loadNextTask\<close> raises with it, and the file on disk still says RUNNING. With a
  \<^verbatim>\<open>source\<close> that the schema knows, the same task is saved as FAILED.
\<close>

theorem loadNextTask_zombie_sweep_raises:
  "fst (loadNextTask demoBuiltins zombieTestWorld) = Inl ZodError
   \<and> disk (snd (loadNextTask demoBuiltins zombieTestWorld)) =
       [(Queue ''test-zombie-v3.json'', Doc (helperTask ''test_suite'' ''RUNNING''))]
   \<and> fst (loadNextTask demoBuiltins zombieManualWorld) = Inr None
   \<and> (case map_of (disk (snd (loadNextTask demoBuiltins zombieManualWorld)))
              (Queue ''test-zombie-v3.json'') of
         Some (Doc t) \<Rightarrow>
           js_get (field (Some t) ''state'') ''status'' = Inr (Some (JStr ''FAILED''))
       | _ \<Rightarrow> False)"
  by code_simp

text \<open>
  C5 (defect). The queue holds the third record of tests/test_schema_validation.js (a
  priority that is a string, no \<^verbatim>\<open>policy\<close> block) and a valid task. The record has no
  \<^verbatim>\<open>policy\<close>, so the eligibility filter of \<^verbatim>\<open>loadNextTask\<close> raises a TypeError on
  \<^verbatim>\<open>t.policy.execute_after\<close>: the pass ends in the handler of the main loop, which
  sleeps ten seconds, and the next passes end the same way; the record is never marked
  and the valid task is never taken. With an empty \<^verbatim>\<open>policy\<close> block added, the record
  is selected and rejected by \<^verbatim>\<open>parseTask\<close>, its state is replaced in memory, and
  \<^verbatim>\<open>saveTask\<close> validates it again and raises: nothing is written.
\<close>

theorem takeNextTask_schema_invalid_raises:
  "(let w0 = schemaTestWorld [];
        r1 = takeNextTask demoBuiltins w0;
        r2 = takeNextTask demoBuiltins (sleep 10000 (snd r1));
        r3 = takeNextTask demoBuiltins (sleep 10000 (snd r2))
    in fst r1 = Inl TypeError \<and> fst r2 = Inl TypeError \<and> fst r3 = Inl TypeError
       \<and> disk (snd r3) = disk w0)
   \<and> (let w0 = schemaTestWorld [(''policy'', JObj [])];
            r1 = takeNextTask demoBuiltins w0
        in fst r1 = Inl ZodError \<and> disk (snd r1) = disk w0)"
  by code_simp


end
